theory Spec2Isabelle
  imports Complex_Main "HOL-Library.Sublist" "HOL-Library.AList"
begin

section \<open>The download handler of scrapy-camoufox\<close>

text \<open>
  A shallow embedding of \<^verbatim>\<open>scrapy_camoufox/handler.py\<close>. The handler is asynchronous
  Python driving a browser engine (Playwright/Camoufox). The embedding follows one
  fetch at a time on the handler's single event loop:
  \<^item> objects the code mutates (the handler \<^verbatim>\<open>self\<close>, pages, contexts) live in an
    explicit store, the record \<open>world\<close>, that every operation takes and returns;
  \<^item> an awaited call ends in one of three ways, the datatype \<open>outcome\<close>: it returns a
    value, it raises, or it never resumes (a semaphore with no free slot, an event
    nobody sets);
  \<^item> what the engine answers (a navigation result, the events a page emits, a failure
    of an engine call) is an explicit argument of the operation that asks for it.
  Logging calls are left out; the statistics counters are kept.
\<close>

subsection \<open>Exceptions and outcomes\<close>

text \<open>
  The exception classes the handler distinguishes. \<^verbatim>\<open>TargetClosedError\<close> is a subclass
  of Playwright's \<^verbatim>\<open>Error\<close>, so \<^verbatim>\<open>except PlaywrightError\<close> catches both; the string is
  the exception's \<^verbatim>\<open>message\<close>.
\<close>

datatype exn =
    TargetClosedError string
  | PlaywrightError string
  | RuntimeError string
  | AttributeError string
  | ValueError string
  | DecodeError string
  | OtherException string

fun is_TargetClosedError :: "exn \<Rightarrow> bool" where
  "is_TargetClosedError (TargetClosedError m) = True"
| "is_TargetClosedError e = False"

fun is_PlaywrightError :: "exn \<Rightarrow> bool" where
  "is_PlaywrightError (TargetClosedError m) = True"
| "is_PlaywrightError (PlaywrightError m) = True"
| "is_PlaywrightError e = False"

fun message :: "exn \<Rightarrow> string" where
  "message (TargetClosedError m) = m"
| "message (PlaywrightError m) = m"
| "message (RuntimeError m) = m"
| "message (AttributeError m) = m"
| "message (ValueError m) = m"
| "message (DecodeError m) = m"
| "message (OtherException m) = m"

datatype 'a outcome = Returns 'a | Raises exn | Blocks

subsection \<open>Engine and framework values\<close>

type_synonym bytes = "char list"
type_synonym headers = "(string \<times> string) list"

text \<open>
  A Playwright request: the fields the handler reads. \<open>rq_response_status\<close> is the
  status of \<^verbatim>\<open>await request.response()\<close>, \<open>None\<close> when that call returns \<^verbatim>\<open>None\<close>;
  \<open>rq_redirected_from\<close> is the backward link \<^verbatim>\<open>request.redirected_from\<close>.
\<close>

datatype pw_request = PwRequest
  (rq_url: string)
  (rq_method: string)
  (rq_resource_type: string)
  (rq_is_navigation_request: bool)
  (rq_all_headers: headers)
  (rq_response_status: "int option")
  (rq_redirected_from: "pw_request option")

record pw_response =
  rs_status :: int
  rs_url :: string
  rs_all_headers :: headers
  rs_request :: pw_request
  rs_security_details :: "string option"
  rs_server_ip :: "string option"

text \<open>
  A Playwright download, as \<^verbatim>\<open>_handle_download\<close> reads it: \<open>pd_failure\<close> is what
  \<^verbatim>\<open>await dwnld.failure()\<close> returns (a message, or \<^verbatim>\<open>None\<close>), \<open>pd_read_bytes\<close> what
  \<^verbatim>\<open>(await dwnld.path()).read_bytes()\<close> returns or raises.
\<close>

record pw_download =
  pd_url :: string
  pd_suggested_filename :: string
  pd_failure :: "string option"
  pd_read_bytes :: "exn + bytes"

text \<open>
  An entry of \<^verbatim>\<open>camoufox_page_methods\<close>: a \<^verbatim>\<open>PageMethod\<close> whose method is a callable or
  the name of a page attribute (\<open>pm_resolves\<close>: \<^verbatim>\<open>getattr(page, name)\<close> finds it), with
  the exception its call raises if any; or some other object. An entry of
  \<^verbatim>\<open>camoufox_page_event_handlers\<close>: a callable, the name of a spider attribute, or
  some other object. The value under that key is a dict of such entries (the empty one
  when the key is absent or its value is false: \<^verbatim>\<open>or {}\<close>), or a true value that is no
  dict and has no \<^verbatim>\<open>items\<close>.
\<close>

datatype page_method = PageMethod (pm_resolves: bool) (pm_raises: "exn option") | NotAPageMethod

datatype event_handler = CallableHandler string | SpiderAttribute string | NotAHandler

datatype event_handlers = EventHandlers "(string \<times> event_handler) list" | NotAMapping

text \<open>
  \<^verbatim>\<open>request.meta\<close>: the keys the handler reads or writes, a missing key is \<open>None\<close>
  (\<open>False\<close> for the flag, which the code only tests for truth; the empty dict for
  the handlers and the empty list for the page methods). A page is held by its handle
  in the store. The page initialisation callback is \<open>None\<close> when unset, otherwise the
  exception its call raises if any.
\<close>

record meta =
  camoufox_page :: "nat option"
  camoufox_context :: "string option"
  camoufox_context_kwargs :: "(string \<times> string) list option"
  camoufox_include_page :: bool
  camoufox_page_event_handlers :: event_handlers
  camoufox_page_init_callback :: "exn option option"
  camoufox_page_methods :: "page_method list"
  redirect_times :: "nat option"
  redirect_urls :: "string list option"
  redirect_reasons :: "int option list option"
  camoufox_security_details :: "string option option"
  camoufox_suggested_filename :: "string option"

record scrapy_request =
  sr_method :: string
  sr_url :: string
  sr_headers :: headers
  sr_body :: "bytes option"
  sr_encoding :: string
  sr_meta :: meta

subsection \<open>Redirect metadata\<close>

text \<open>
  The loop of \<^verbatim>\<open>_set_redirect_meta\<close>: \<^verbatim>\<open>while redirected is not None\<close>, with the three
  accumulators \<^verbatim>\<open>redirect_times\<close>, \<^verbatim>\<open>redirect_urls\<close>, \<^verbatim>\<open>redirect_reasons\<close>.
\<close>

fun walk_redirects ::
  "pw_request option \<Rightarrow> nat \<times> string list \<times> int option list
     \<Rightarrow> nat \<times> string list \<times> int option list" where
  "walk_redirects None acc = acc"
| "walk_redirects (Some (PwRequest u m t n h s rf)) (cnt, urls, reasons) =
     walk_redirects rf (cnt + 1, urls @ [u], reasons @ [s])"

definition set_redirect_meta :: "scrapy_request \<Rightarrow> pw_response \<Rightarrow> scrapy_request" where
  "set_redirect_meta request response =
     (case walk_redirects (rq_redirected_from (rs_request response)) (0, [], []) of
        (cnt, urls, reasons) \<Rightarrow>
          if cnt \<noteq> 0
          then request\<lparr>sr_meta := (sr_meta request)\<lparr>
                 redirect_times := Some cnt,
                 redirect_urls := Some (rev urls),
                 redirect_reasons := Some (rev reasons)\<rparr>\<rparr>
          else request)"

text \<open>
  The redirect chain as the specification describes it: the hops met when following
  the backward links, nearest hop first, each with its url and the status of its
  response (\<open>None\<close> when unknown).
\<close>

fun backward_hops :: "pw_request option \<Rightarrow> (string \<times> int option) list" where
  "backward_hops None = []"
| "backward_hops (Some (PwRequest u m t n h s rf)) = (u, s) # backward_hops rf"

subsection \<open>Configuration\<close>

record config =
  launch_options :: "(string \<times> string) list"
  max_pages_per_context :: int
  max_contexts :: "int option"
  startup_context_kwargs :: "(string \<times> (string \<times> string) list) list"
  navigation_timeout :: "real option"
  restart_disconnected_browser :: bool
  target_closed_max_retries :: int
  use_threaded_loop :: bool
  browser_type_name :: string

record settings =
  CAMOUFOX_LAUNCH_OPTIONS :: "(string \<times> string) list"
  CAMOUFOX_MAX_PAGES_PER_CONTEXT :: int
  CAMOUFOX_MAX_CONTEXTS :: int
  CAMOUFOX_CONTEXTS :: "(string \<times> (string \<times> string) list) list"
  CAMOUFOX_DEFAULT_NAVIGATION_TIMEOUT :: "real option"
  CAMOUFOX_RESTART_DISCONNECTED_BROWSER :: bool
  PLAYWRIGHT_THREADED_LOOP :: bool
  CONCURRENT_REQUESTS :: int
  platform_is_windows :: bool

definition from_settings :: "settings \<Rightarrow> config" where
  "from_settings st =
     (let cfg = \<lparr>
        launch_options = CAMOUFOX_LAUNCH_OPTIONS st,
        max_pages_per_context = CAMOUFOX_MAX_PAGES_PER_CONTEXT st,
        max_contexts =
          (if CAMOUFOX_MAX_CONTEXTS st = 0 then None else Some (CAMOUFOX_MAX_CONTEXTS st)),
        startup_context_kwargs = CAMOUFOX_CONTEXTS st,
        navigation_timeout = CAMOUFOX_DEFAULT_NAVIGATION_TIMEOUT st,
        restart_disconnected_browser = CAMOUFOX_RESTART_DISCONNECTED_BROWSER st,
        target_closed_max_retries = 3,
        use_threaded_loop = (platform_is_windows st \<or> PLAYWRIGHT_THREADED_LOOP st),
        browser_type_name = ''firefox''\<rparr>
      in if max_pages_per_context cfg = 0
         then cfg\<lparr>max_pages_per_context := CONCURRENT_REQUESTS st\<rparr>
         else cfg)"

subsection \<open>The store\<close>

datatype listener =
    ClosePageCallback string
  | CloseBrowserContextCallback string bool
  | BrowserDisconnectedCallback
  | RequestLogger string
  | ResponseLogger string
  | IncrementRequestStats
  | IncrementResponseStats
  | HandleDownload
  | HandleResponse
  | UserHandler string

record page =
  pg_context :: nat
  pg_closed :: bool
  pg_url :: string
  pg_listeners :: "(string \<times> listener) list"
  pg_route :: "scrapy_request option"
  pg_default_navigation_timeout :: "real option"

record browser_context =
  bc_kwargs :: "(string \<times> string) list"
  bc_pages :: "nat list"
  bc_listeners :: "(string \<times> listener) list"
  bc_default_navigation_timeout :: "real option"

record browser_context_wrapper =
  context_obj :: nat
  semaphore :: int
  persistent :: bool

record world =
  config :: config
  browser :: "nat option"
  context_wrappers :: "(string \<times> browser_context_wrapper) list"
  context_semaphore :: "int option"
  stats :: "string \<Rightarrow> int option"
  launches :: "bool list"
  browser_listeners :: "(string \<times> listener) list"
  contexts :: "nat \<Rightarrow> browser_context"
  pages :: "nat \<Rightarrow> page"
  next_handle :: nat

definition DEFAULT_CONTEXT_NAME :: string where
  "DEFAULT_CONTEXT_NAME = ''default''"

definition PERSISTENT_CONTEXT_PATH_KEY :: string where
  "PERSISTENT_CONTEXT_PATH_KEY = ''user_data_dir''"

definition andThen :: "'a outcome \<times> 's \<Rightarrow> ('a \<Rightarrow> 's \<Rightarrow> 'b outcome \<times> 's) \<Rightarrow> 'b outcome \<times> 's" where
  "andThen m f =
     (case m of
        (Returns a, s) \<Rightarrow> f a s
      | (Raises e, s) \<Rightarrow> (Raises e, s)
      | (Blocks, s) \<Rightarrow> (Blocks, s))"

definition inc_value :: "string \<Rightarrow> world \<Rightarrow> world" where
  "inc_value key w =
     w\<lparr>stats := (stats w)(key \<mapsto> (case stats w key of None \<Rightarrow> 1 | Some v \<Rightarrow> v + 1))\<rparr>"

definition set_value :: "string \<Rightarrow> int \<Rightarrow> world \<Rightarrow> world" where
  "set_value key v w = w\<lparr>stats := (stats w)(key \<mapsto> v)\<rparr>"

definition get_total_page_count :: "world \<Rightarrow> int" where
  "get_total_page_count w =
     sum_list (map (\<lambda>(name, ctx). int (length (bc_pages (contexts w (context_obj ctx)))))
       (context_wrappers w))"

definition set_max_concurrent_page_count :: "world \<Rightarrow> world" where
  "set_max_concurrent_page_count w =
     (let count = get_total_page_count w;
          current_max_count = stats w ''camoufox/page_count/max_concurrent''
      in if (case current_max_count of None \<Rightarrow> True | Some m \<Rightarrow> count > m)
         then set_value ''camoufox/page_count/max_concurrent'' count w
         else w)"

definition set_max_concurrent_context_count :: "world \<Rightarrow> world" where
  "set_max_concurrent_context_count w =
     (let current_max_count = stats w ''camoufox/context_count/max_concurrent''
      in if (case current_max_count of
                None \<Rightarrow> True | Some m \<Rightarrow> int (length (context_wrappers w)) > m)
         then set_value ''camoufox/context_count/max_concurrent''
                (int (length (context_wrappers w))) w
         else w)"

subsection \<open>Page events and listeners\<close>

text \<open>
  What a page emits. \<open>Ev_download\<close> is the \<^verbatim>\<open>download\<close> event; \<open>Download_settled\<close> is not
  an event but the moment the download finishes, when the coroutine \<^verbatim>\<open>_handle_download\<close>
  started by the event resumes after \<^verbatim>\<open>await dwnld.failure()\<close>.
\<close>

datatype page_event =
    Ev_close
  | Ev_crash
  | Ev_request pw_request
  | Ev_response pw_response
  | Ev_download pw_download
  | Download_settled pw_download

fun event_name :: "page_event \<Rightarrow> string" where
  "event_name Ev_close = ''close''"
| "event_name Ev_crash = ''crash''"
| "event_name (Ev_request r) = ''request''"
| "event_name (Ev_response r) = ''response''"
| "event_name (Ev_download d) = ''download''"
| "event_name (Download_settled d) = []"

text \<open>
  What the engine and the caller's code answer during one run of the pipeline: whether
  an engine call raises (the launch, \<^verbatim>\<open>new_context\<close>, \<^verbatim>\<open>new_page\<close>, \<^verbatim>\<open>page.unroute\<close>,
  \<^verbatim>\<open>page.route\<close>, \<^verbatim>\<open>page.close\<close>), the events the page emits while \<^verbatim>\<open>page.goto\<close> is
  awaited and those it emits afterwards, the result of \<^verbatim>\<open>page.goto\<close>, the page's url
  after the navigation, the result of \<^verbatim>\<open>_get_page_content\<close> and the function
  \<^verbatim>\<open>_encode_body\<close> (both of \<^verbatim>\<open>_utils\<close>), the names of the spider's attributes, and the
  normal form in which the framework's \<^verbatim>\<open>Headers\<close> keeps a key.
\<close>

record answers =
  launch_raises :: "exn option"
  new_context_raises :: "exn option"
  new_page_raises :: "exn option"
  goto_events :: "page_event list"
  goto_result :: "exn + pw_response option"
  goto_url :: string
  wait_events :: "page_event list"
  page_content :: "exn + string"
  encode_body :: "headers \<Rightarrow> string \<Rightarrow> bytes \<times> string"
  spider_attributes :: "string list"
  unroute_raises :: "exn option"
  route_raises :: "exn option"
  close_raises :: "exn option"
  header_key :: "string \<Rightarrow> string"

definition page_on :: "nat \<Rightarrow> string \<Rightarrow> listener \<Rightarrow> world \<Rightarrow> world" where
  "page_on pid ev l w =
     w\<lparr>pages := (pages w)(pid := (pages w pid)\<lparr>
        pg_listeners := pg_listeners (pages w pid) @ [(ev, l)]\<rparr>)\<rparr>"

definition remove_listener :: "nat \<Rightarrow> string \<Rightarrow> listener \<Rightarrow> world \<Rightarrow> world" where
  "remove_listener pid ev l w =
     w\<lparr>pages := (pages w)(pid := (pages w pid)\<lparr>
        pg_listeners := remove1 (ev, l) (pg_listeners (pages w pid))\<rparr>)\<rparr>"

definition context_on :: "nat \<Rightarrow> string \<Rightarrow> listener \<Rightarrow> world \<Rightarrow> world" where
  "context_on c ev l w =
     w\<lparr>contexts := (contexts w)(c := (contexts w c)\<lparr>
        bc_listeners := bc_listeners (contexts w c) @ [(ev, l)]\<rparr>)\<rparr>"

subsection \<open>The pool: browser, contexts, pages\<close>

text \<open>
  \<^verbatim>\<open>_maybe_launch_browser\<close> has no \<^verbatim>\<open>return\<close> statement: the value of the call is \<^verbatim>\<open>None\<close>.
  The launched object is kept in \<^verbatim>\<open>self.browser\<close>; \<open>launches\<close> records the
  \<^verbatim>\<open>persistent_context\<close> argument of every \<^verbatim>\<open>AsyncNewBrowser\<close> call.
\<close>

definition maybe_launch_browser :: "answers \<Rightarrow> bool \<Rightarrow> world \<Rightarrow> nat option outcome \<times> world" where
  "maybe_launch_browser env persistent_arg w =
     (if browser w = None
      then (case launch_raises env of
              Some e \<Rightarrow> (Raises e, w)
            | None \<Rightarrow>
                (Returns None,
                 (inc_value ''camoufox/browser_count''
                    (w\<lparr>browser := Some (next_handle w),
                       launches := launches w @ [persistent_arg],
                       next_handle := Suc (next_handle w)\<rparr>))
                 \<lparr>browser_listeners := [(''disconnected'', BrowserDisconnectedCallback)]\<rparr>))
      else (Returns None, w))"

definition new_context :: "answers \<Rightarrow> (string \<times> string) list \<Rightarrow> world \<Rightarrow> nat outcome \<times> world" where
  "new_context env kwargs w =
     (case new_context_raises env of
        Some e \<Rightarrow> (Raises e, w)
      | None \<Rightarrow>
          (Returns (next_handle w),
           w\<lparr>contexts := (contexts w)(next_handle w :=
                \<lparr>bc_kwargs = kwargs, bc_pages = [], bc_listeners = [],
                 bc_default_navigation_timeout = None\<rparr>),
             next_handle := Suc (next_handle w)\<rparr>))"

text \<open>
  \<^verbatim>\<open>asyncio.Semaphore\<close>: \<^verbatim>\<open>acquire\<close> takes a slot when the value is positive and waits
  otherwise; \<^verbatim>\<open>release\<close> adds one, with no upper bound.
\<close>

definition acquire_context_slot :: "world \<Rightarrow> unit outcome \<times> world" where
  "acquire_context_slot w =
     (case context_semaphore w of
        None \<Rightarrow> (Returns (), w)
      | Some v \<Rightarrow> if 0 < v then (Returns (), w\<lparr>context_semaphore := Some (v - 1)\<rparr>)
                  else (Blocks, w))"

definition truthy :: "string option \<Rightarrow> bool" where
  "truthy v = (case v of None \<Rightarrow> False | Some s \<Rightarrow> s \<noteq> [])"

definition create_browser_context ::
  "answers \<Rightarrow> string \<Rightarrow> (string \<times> string) list option \<Rightarrow> world
     \<Rightarrow> browser_context_wrapper outcome \<times> world" where
  "create_browser_context env name context_kwargs w0 =
     andThen (acquire_context_slot w0) (\<lambda>u w1.
       let kwargs = (case context_kwargs of None \<Rightarrow> [] | Some k \<Rightarrow> k) in
       andThen
         (if truthy (map_of kwargs PERSISTENT_CONTEXT_PATH_KEY)
          then andThen (maybe_launch_browser env True w1)
                 (\<lambda>c w. (Returns (c, True), w))
          else andThen (maybe_launch_browser env False w1) (\<lambda>n w.
                 andThen (new_context env kwargs w) (\<lambda>c w. (Returns (Some c, False), w))))
         (\<lambda>(ctx, is_persistent) w2.
            case ctx of
              None \<Rightarrow> (Raises (AttributeError ''NoneType object has no attribute on''), w2)
            | Some c \<Rightarrow>
                let w = context_on c ''close'' (CloseBrowserContextCallback name is_persistent) w2;
                    w = inc_value ''camoufox/context_count'' w;
                    w = inc_value (''camoufox/context_count/persistent/''
                          @ (if is_persistent then ''True'' else ''False'')) w;
                    w = (case navigation_timeout (config w) of
                           None \<Rightarrow> w
                         | Some t \<Rightarrow> w\<lparr>contexts := (contexts w)(c := (contexts w c)\<lparr>
                                      bc_default_navigation_timeout := Some t\<rparr>)\<rparr>)
                in if max_pages_per_context (config w) < 0
                   then (Raises (ValueError ''Semaphore initial value must be >= 0''), w)
                   else
                     let wrapper = \<lparr>context_obj = c,
                                    semaphore = max_pages_per_context (config w),
                                    persistent = is_persistent\<rparr>;
                         w = w\<lparr>context_wrappers := AList.update name wrapper (context_wrappers w)\<rparr>;
                         w = set_max_concurrent_context_count w
                     in (Returns wrapper, w)))"

definition close_page_callback :: "string \<Rightarrow> world \<Rightarrow> world" where
  "close_page_callback context_name w =
     (case map_of (context_wrappers w) context_name of
        None \<Rightarrow> w
      | Some wr \<Rightarrow>
          w\<lparr>context_wrappers :=
               AList.update context_name (wr\<lparr>semaphore := semaphore wr + 1\<rparr>) (context_wrappers w)\<rparr>)"

definition acquire_page_slot ::
  "string \<Rightarrow> browser_context_wrapper \<Rightarrow> world \<Rightarrow> unit outcome \<times> world" where
  "acquire_page_slot context_name ctx_wrapper w =
     (if 0 < semaphore ctx_wrapper
      then (Returns (),
            w\<lparr>context_wrappers :=
                 AList.update context_name (ctx_wrapper\<lparr>semaphore := semaphore ctx_wrapper - 1\<rparr>)
                   (context_wrappers w)\<rparr>)
      else (Blocks, w))"

definition new_page :: "answers \<Rightarrow> nat \<Rightarrow> world \<Rightarrow> nat outcome \<times> world" where
  "new_page env c w =
     (case new_page_raises env of
        Some e \<Rightarrow> (Raises e, w)
      | None \<Rightarrow>
          (Returns (next_handle w),
           w\<lparr>pages := (pages w)(next_handle w :=
                \<lparr>pg_context = c, pg_closed = False, pg_url = ''about:blank'', pg_listeners = [],
                 pg_route = None, pg_default_navigation_timeout = None\<rparr>),
             contexts := (contexts w)(c := (contexts w c)\<lparr>
                bc_pages := bc_pages (contexts w c) @ [next_handle w]\<rparr>),
             next_handle := Suc (next_handle w)\<rparr>))"

definition in_world :: "'a outcome \<times> world \<Rightarrow> scrapy_request \<Rightarrow> 'a outcome \<times> scrapy_request \<times> world" where
  "in_world m request = (fst m, request, snd m)"

definition create_page ::
  "answers \<Rightarrow> scrapy_request \<Rightarrow> world \<Rightarrow> nat outcome \<times> scrapy_request \<times> world" where
  "create_page env request0 w0 =
     (let context_name = (case camoufox_context (sr_meta request0) of
                            None \<Rightarrow> DEFAULT_CONTEXT_NAME | Some n \<Rightarrow> n);
          request = request0\<lparr>sr_meta := (sr_meta request0)\<lparr>camoufox_context := Some context_name\<rparr>\<rparr>
      in
      andThen
        (case map_of (context_wrappers w0) context_name of
           None \<Rightarrow> in_world (create_browser_context env context_name
                               (camoufox_context_kwargs (sr_meta request)) w0) request
         | Some ctx_wrapper \<Rightarrow> (Returns ctx_wrapper, request, w0))
        (\<lambda>ctx_wrapper (request, w1).
           andThen (in_world (acquire_page_slot context_name ctx_wrapper w1) request) (\<lambda>u (request, w2).
           andThen (in_world (new_page env (context_obj ctx_wrapper) w2) request) (\<lambda>pid (request, w3).
             let w = inc_value ''camoufox/page_count'' w3;
                 w = set_max_concurrent_page_count w;
                 w = (case navigation_timeout (config w) of
                        None \<Rightarrow> w
                      | Some t \<Rightarrow> w\<lparr>pages := (pages w)(pid := (pages w pid)\<lparr>
                                   pg_default_navigation_timeout := Some t\<rparr>)\<rparr>);
                 w = page_on pid ''close'' (ClosePageCallback context_name) w;
                 w = page_on pid ''crash'' (ClosePageCallback context_name) w;
                 w = page_on pid ''request'' (RequestLogger context_name) w;
                 w = page_on pid ''response'' (ResponseLogger context_name) w;
                 w = page_on pid ''request'' IncrementRequestStats w;
                 w = page_on pid ''response'' IncrementResponseStats w
             in (Returns pid, request, w)))))"

definition increment_request_stats :: "pw_request \<Rightarrow> world \<Rightarrow> world" where
  "increment_request_stats r w =
     (let w = inc_value ''camoufox/request_count'' w;
          w = inc_value (''camoufox/request_count/resource_type/'' @ rq_resource_type r) w;
          w = inc_value (''camoufox/request_count/method/'' @ rq_method r) w
      in if rq_is_navigation_request r
         then inc_value ''camoufox/request_count/navigation'' w
         else w)"

definition increment_response_stats :: "pw_response \<Rightarrow> world \<Rightarrow> world" where
  "increment_response_stats r w =
     (let w = inc_value ''camoufox/response_count'' w;
          w = inc_value (''camoufox/response_count/resource_type/''
                @ rq_resource_type (rs_request r)) w
      in inc_value (''camoufox/response_count/method/'' @ rq_method (rs_request r)) w)"

text \<open>
  Running one registered listener on an event. The closures of the navigation
  (\<open>HandleDownload\<close>, \<open>HandleResponse\<close>) work on local variables and are run where
  those live; loggers and the caller's own handlers leave the store as it is.
\<close>

fun run_listener :: "listener \<Rightarrow> page_event \<Rightarrow> world \<Rightarrow> world" where
  "run_listener (ClosePageCallback context_name) ev w = close_page_callback context_name w"
| "run_listener IncrementRequestStats (Ev_request r) w = increment_request_stats r w"
| "run_listener IncrementResponseStats (Ev_response r) w = increment_response_stats r w"
| "run_listener l ev w = w"

definition emit :: "nat \<Rightarrow> page_event \<Rightarrow> world \<Rightarrow> world" where
  "emit pid ev w =
     fold (\<lambda>(name, l) w. if name = event_name ev then run_listener l ev w else w)
       (pg_listeners (pages w pid)) w"

text \<open>
  What \<^verbatim>\<open>page.close()\<close> does in the engine: the page is marked closed, leaves its
  context's list of pages and emits \<^verbatim>\<open>close\<close>; on a closed page it does nothing.
\<close>

definition page_close :: "nat \<Rightarrow> world \<Rightarrow> world" where
  "page_close pid w =
     (if pg_closed (pages w pid) then w
      else emit pid Ev_close
             (w\<lparr>pages := (pages w)(pid := (pages w pid)\<lparr>pg_closed := True\<rparr>),
                contexts := (contexts w)(pg_context (pages w pid) :=
                  (contexts w (pg_context (pages w pid)))\<lparr>
                    bc_pages := removeAll pid (bc_pages (contexts w (pg_context (pages w pid))))\<rparr>)\<rparr>))"

text \<open>
  The call \<^verbatim>\<open>await page.close()\<close>: on an open page the engine may fail to close it, and
  then the call raises and the page stays as it is.
\<close>

definition close_page :: "answers \<Rightarrow> nat \<Rightarrow> world \<Rightarrow> unit outcome \<times> world" where
  "close_page env pid w =
     (if pg_closed (pages w pid) then (Returns (), w)
      else (case close_raises env of
              Some e \<Rightarrow> (Raises e, w)
            | None \<Rightarrow> (Returns (), page_close pid w)))"

subsection \<open>Navigation or download\<close>

record download =
  dl_body :: bytes
  dl_url :: string
  dl_suggested_filename :: string
  dl_exception :: "exn option"
  dl_response_status :: int
  dl_headers :: headers

definition Download :: download where
  "Download = \<lparr>dl_body = [], dl_url = [], dl_suggested_filename = [], dl_exception = None,
                dl_response_status = 200, dl_headers = []\<rparr>"

text \<open>\<^verbatim>\<open>Download.__bool__\<close>.\<close>

definition download_bool :: "download \<Rightarrow> bool" where
  "download_bool d = (dl_body d \<noteq> [] \<or> dl_exception d \<noteq> None)"

text \<open>
  The local variables of \<^verbatim>\<open>_get_response_and_download\<close> that its two closures share:
  the download record, updated in place, and the two \<^verbatim>\<open>asyncio.Event\<close>s.
\<close>

record navigation =
  nv_download :: download
  download_started :: bool
  download_ready :: bool

definition handle_response :: "pw_response \<Rightarrow> navigation \<Rightarrow> navigation" where
  "handle_response response nv =
     nv\<lparr>nv_download := (nv_download nv)\<lparr>dl_response_status := rs_status response,
                                        dl_headers := rs_all_headers response\<rparr>,
        download_started := True\<rparr>"

text \<open>
  \<^verbatim>\<open>_handle_download\<close> up to its first \<^verbatim>\<open>await\<close>, and from there to its end once the
  download has finished.
\<close>

definition handle_download_begin :: "navigation \<times> world \<Rightarrow> navigation \<times> world" where
  "handle_download_begin s =
     (case s of (nv, w) \<Rightarrow> (nv\<lparr>download_started := True\<rparr>, inc_value ''camoufox/download_count'' w))"

definition handle_download_finish :: "pw_download \<Rightarrow> navigation \<Rightarrow> navigation" where
  "handle_download_finish dwnld nv =
     (let failure = (case pd_failure dwnld of None \<Rightarrow> [] | Some f \<Rightarrow> f) in
      if failure \<noteq> []
      then nv\<lparr>nv_download := (nv_download nv)\<lparr>dl_exception :=
                Some (RuntimeError (''Failed to download '' @ pd_url dwnld @ '': '' @ failure))\<rparr>,
              download_ready := True\<rparr>
      else
        (case pd_read_bytes dwnld of
           Inl ex \<Rightarrow>
             nv\<lparr>nv_download := (nv_download nv)\<lparr>dl_exception := Some ex\<rparr>,
                download_ready := True\<rparr>
         | Inr b \<Rightarrow>
             nv\<lparr>nv_download := (nv_download nv)\<lparr>dl_body := b, dl_url := pd_url dwnld,
                   dl_suggested_filename := pd_suggested_filename dwnld\<rparr>,
                download_ready := True\<rparr>))"

text \<open>
  One event on the page during the navigation: the listeners registered in the store
  run, and the two closures run if they are registered for the event.
\<close>

definition on_event :: "nat \<Rightarrow> page_event \<Rightarrow> navigation \<times> world \<Rightarrow> navigation \<times> world" where
  "on_event pid ev s =
     (case s of (nv, w) \<Rightarrow>
        let ls = pg_listeners (pages w pid); w' = emit pid ev w in
        (case ev of
           Ev_response r \<Rightarrow>
             if (''response'', HandleResponse) \<in> set ls then (handle_response r nv, w') else (nv, w')
         | Ev_download d \<Rightarrow>
             if (''download'', HandleDownload) \<in> set ls then handle_download_begin (nv, w') else (nv, w')
         | Download_settled d \<Rightarrow> (handle_download_finish d nv, w')
         | _ \<Rightarrow> (nv, w')))"

text \<open>
  \<^verbatim>\<open>await event.wait()\<close>: events are taken one by one until the flag is set. The result
  holds the events not yet taken, or \<open>None\<close> when the flag is still unset after the last
  event: the wait never ends.
\<close>

fun wait_for ::
  "(navigation \<Rightarrow> bool) \<Rightarrow> nat \<Rightarrow> page_event list \<Rightarrow> navigation \<times> world
     \<Rightarrow> page_event list option \<times> navigation \<times> world" where
  "wait_for flag pid [] s = (if flag (fst s) then Some [] else None, s)"
| "wait_for flag pid (ev # evs) s =
     (if flag (fst s) then (Some (ev # evs), s) else wait_for flag pid evs (on_event pid ev s))"

definition remove_listeners :: "nat \<Rightarrow> world \<Rightarrow> world" where
  "remove_listeners pid w =
     remove_listener pid ''response'' HandleResponse
       (remove_listener pid ''download'' HandleDownload w)"

text \<open>
  The test \<^verbatim>\<open>self.config.browser_type_name in ("firefox") and "Download is starting" in
  err.message\<close>. The parentheses around \<^verbatim>\<open>"firefox"\<close> make no tuple, so both \<^verbatim>\<open>in\<close> are
  substring tests.
\<close>

definition download_is_starting :: "config \<Rightarrow> exn \<Rightarrow> bool" where
  "download_is_starting cfg err =
     (sublist (browser_type_name cfg) ''firefox'' \<and> sublist ''Download is starting'' (message err))"

text \<open>
  The first part of \<^verbatim>\<open>_get_response_and_download\<close>: the two closures are subscribed,
  \<^verbatim>\<open>page.goto\<close> is awaited, and the events the page emits meanwhile are handled. The
  result holds the local variables and the store at the moment \<^verbatim>\<open>page.goto\<close> returns or
  raises.
\<close>

definition navigate :: "answers \<Rightarrow> nat \<Rightarrow> world \<Rightarrow> navigation \<times> world" where
  "navigate env pid w0 =
     (let nv0 = \<lparr>nv_download = Download, download_started = False, download_ready = False\<rparr>;
          w1 = page_on pid ''response'' HandleResponse (page_on pid ''download'' HandleDownload w0);
          (nv1, w2) = fold (on_event pid) (goto_events env) (nv0, w1)
      in (nv1, w2\<lparr>pages := (pages w2)(pid := (pages w2 pid)\<lparr>pg_url := goto_url env\<rparr>)\<rparr>))"

definition get_response_and_download ::
  "answers \<Rightarrow> scrapy_request \<Rightarrow> nat \<Rightarrow> world
     \<Rightarrow> (pw_response option \<times> download option) outcome \<times> world" where
  "get_response_and_download env request pid w0 =
     (case navigate env pid w0 of (nv1, w3) \<Rightarrow>
      case goto_result env of
        Inr response \<Rightarrow>
          (Returns (response,
                    if download_bool (nv_download nv1) then Some (nv_download nv1) else None),
           remove_listeners pid w3)
      | Inl err \<Rightarrow>
          if \<not> is_PlaywrightError err then (Raises err, remove_listeners pid w3)
          else if \<not> download_is_starting (config w0) err then (Raises err, remove_listeners pid w3)
          else
            (case wait_for download_started pid (wait_events env) (nv1, w3) of
               (None, nv2, w4) \<Rightarrow> (Blocks, w4)
             | (Some evs, nv2, w4) \<Rightarrow>
                 if dl_response_status (nv_download nv2) = 204
                 then (Raises err, remove_listeners pid w4)
                 else
                   (case wait_for download_ready pid evs (nv2, w4) of
                      (None, nv3, w5) \<Rightarrow> (Blocks, w5)
                    | (Some evs', nv3, w5) \<Rightarrow>
                        (Returns (None,
                                  if download_bool (nv_download nv3)
                                  then Some (nv_download nv3) else None),
                         remove_listeners pid w5))))"

subsection \<open>Strings\<close>

text \<open>\<^verbatim>\<open>str.rstrip("/")\<close>.\<close>

definition rstrip_slash :: "string \<Rightarrow> string" where
  "rstrip_slash s = rev (dropWhile (\<lambda>c. c = CHR ''/'') (rev s))"

text \<open>
  \<^verbatim>\<open>Headers.pop(key, None)\<close> of the framework, which looks a key up in its normal form
  (the function \<open>normkey\<close>).
\<close>

definition headers_pop :: "(string \<Rightarrow> string) \<Rightarrow> string \<Rightarrow> headers \<Rightarrow> headers" where
  "headers_pop normkey key hs = filter (\<lambda>(k, v). normkey k \<noteq> normkey key) hs"

subsection \<open>One run of the pipeline on a page\<close>

record scrapy_response =
  rp_url :: string
  rp_status :: int
  rp_headers :: headers
  rp_body :: bytes
  rp_flags :: "string list"
  rp_encoding :: "string option"
  rp_ip_address :: "string option"

fun apply_page_methods :: "page_method list \<Rightarrow> world \<Rightarrow> unit outcome \<times> world" where
  "apply_page_methods [] w = (Returns (), w)"
| "apply_page_methods (NotAPageMethod # pms) w = apply_page_methods pms w"
| "apply_page_methods (PageMethod resolves raises # pms) w =
     (if \<not> resolves then apply_page_methods pms w
      else (case raises of
              Some e \<Rightarrow> (Raises e, w)
            | None \<Rightarrow> apply_page_methods pms w))"

text \<open>
  The first statement of \<^verbatim>\<open>_download_request_with_page\<close>: with the flag
  \<^verbatim>\<open>camoufox_include_page\<close>, the page is stored in the request's \<^verbatim>\<open>meta\<close>.
\<close>

definition keep_page_handle :: "nat \<Rightarrow> scrapy_request \<Rightarrow> scrapy_request" where
  "keep_page_handle pid request =
     (if camoufox_include_page (sr_meta request)
      then request\<lparr>sr_meta := (sr_meta request)\<lparr>camoufox_page := Some pid\<rparr>\<rparr>
      else request)"

definition download_request_with_page ::
  "answers \<Rightarrow> scrapy_request \<Rightarrow> nat \<Rightarrow> world
     \<Rightarrow> scrapy_response outcome \<times> scrapy_request \<times> world" where
  "download_request_with_page env request0 pid w0 =
     (let request1 = keep_page_handle pid request0
      in
      andThen (in_world (get_response_and_download env request1 pid w0) request1)
        (\<lambda>(response, download) (request, w).
           let (request, hdrs) =
                 (case response of
                    Some r \<Rightarrow> (set_redirect_meta request r,
                               Some (headers_pop (header_key env) ''Content-Encoding''
                                       (rs_all_headers r)))
                  | None \<Rightarrow> (request, if download = None then Some [] else None))
           in
           andThen (in_world (apply_page_methods (camoufox_page_methods (sr_meta request)) w) request)
             (\<lambda>u (request, w).
                case page_content env of
                  Inl e \<Rightarrow> (Raises e, request, w)
                | Inr body_str \<Rightarrow>
                    let (request, server_ip_address) =
                          (case response of
                             Some r \<Rightarrow>
                               (request\<lparr>sr_meta := (sr_meta request)\<lparr>
                                  camoufox_security_details := Some (rs_security_details r)\<rparr>\<rparr>,
                                rs_server_ip r)
                           | None \<Rightarrow> (request, None))
                    in
                    (case (case download of Some d \<Rightarrow> dl_exception d | None \<Rightarrow> None) of
                       Some ex \<Rightarrow> (Raises ex, request, w)
                     | None \<Rightarrow>
                         andThen
                           (if \<not> camoufox_include_page (sr_meta request)
                            then andThen (in_world (close_page env pid w) request)
                                   (\<lambda>u (request, w).
                                      (Returns (), request,
                                       inc_value ''camoufox/page_count/closed'' w))
                            else (Returns (), request, w))
                           (\<lambda>u (request, w).
                              case download of
                                Some d \<Rightarrow>
                                  (Returns \<lparr>rp_url = dl_url d,
                                            rp_status = dl_response_status d,
                                            rp_headers = headers_pop (header_key env)
                                                           ''Content-Encoding'' (dl_headers d),
                                            rp_body = dl_body d,
                                            rp_flags = [''camoufox''],
                                            rp_encoding = None,
                                            rp_ip_address = None\<rparr>,
                                   request\<lparr>sr_meta := (sr_meta request)\<lparr>
                                     camoufox_suggested_filename := Some (dl_suggested_filename d)\<rparr>\<rparr>,
                                   w)
                              | None \<Rightarrow>
                                  (case hdrs of
                                     None \<Rightarrow> (Raises (OtherException ''UnboundLocalError''), request, w)
                                   | Some hs \<Rightarrow>
                                       let (body, encoding) = encode_body env hs body_str in
                                       (Returns \<lparr>rp_url = pg_url (pages w pid),
                                                 rp_status = (case response of
                                                                Some r \<Rightarrow> rs_status r | None \<Rightarrow> 200),
                                                 rp_headers = hs,
                                                 rp_body = body,
                                                 rp_flags = [''camoufox''],
                                                 rp_encoding = Some encoding,
                                                 rp_ip_address = server_ip_address\<rparr>,
                                        request, w)))))))"

subsection \<open>One attempt of a fetch, and the retry loop\<close>

text \<open>
  \<^verbatim>\<open>_attach_page_event_handlers\<close>: its loop over the entries, and the function itself,
  where \<^verbatim>\<open>event_handlers.items()\<close> raises \<^verbatim>\<open>AttributeError\<close> for a value that has no such
  method.
\<close>

fun attach_each ::
  "string list \<Rightarrow> nat \<Rightarrow> (string \<times> event_handler) list \<Rightarrow> world \<Rightarrow> world" where
  "attach_each spider pid [] w = w"
| "attach_each spider pid ((event, CallableHandler h) # hs) w =
     attach_each spider pid hs (page_on pid event (UserHandler h) w)"
| "attach_each spider pid ((event, SpiderAttribute a) # hs) w =
     attach_each spider pid hs
       (if a \<in> set spider then page_on pid event (UserHandler a) w else w)"
| "attach_each spider pid ((event, NotAHandler) # hs) w =
     attach_each spider pid hs w"

definition attach_page_event_handlers ::
  "string list \<Rightarrow> nat \<Rightarrow> event_handlers \<Rightarrow> world \<Rightarrow> unit outcome \<times> world" where
  "attach_page_event_handlers spider pid event_handlers w =
     (case event_handlers of
        NotAMapping \<Rightarrow> (Raises (AttributeError ''object has no attribute items''), w)
      | EventHandlers hs \<Rightarrow> (Returns (), attach_each spider pid hs w))"

definition page_route :: "nat \<Rightarrow> scrapy_request option \<Rightarrow> world \<Rightarrow> world" where
  "page_route pid handler w = w\<lparr>pages := (pages w)(pid := (pages w pid)\<lparr>pg_route := handler\<rparr>)\<rparr>"

text \<open>
  \<^verbatim>\<open>_download_request_with_retry\<close> in its three parts. The page is taken from the request
  or created. The event handlers and the route handler are installed, outside any
  \<^verbatim>\<open>try\<close>: an exception of \<^verbatim>\<open>_attach_page_event_handlers\<close>, \<^verbatim>\<open>page.unroute\<close> or \<^verbatim>\<open>page.route\<close>
  leaves the function at once (the page initialisation callback follows, whose
  exceptions are caught and whose effect on the page is not modelled). Then
  \<^verbatim>\<open>_download_request_with_page\<close> runs inside \<^verbatim>\<open>try\<close>, and the \<^verbatim>\<open>except Exception\<close> clause
  closes the page and raises the exception again; an exception of \<^verbatim>\<open>page.close\<close> in that
  clause takes the place of the one being handled.
\<close>

definition resolve_page ::
  "answers \<Rightarrow> scrapy_request \<Rightarrow> world \<Rightarrow> nat outcome \<times> scrapy_request \<times> world" where
  "resolve_page env request0 w0 =
     (case camoufox_page (sr_meta request0) of
        Some p \<Rightarrow> if pg_closed (pages w0 p) then create_page env request0 w0
                  else (Returns p, request0, w0)
      | None \<Rightarrow> create_page env request0 w0)"

definition install_handlers ::
  "answers \<Rightarrow> nat \<Rightarrow> scrapy_request \<times> world \<Rightarrow> unit outcome \<times> scrapy_request \<times> world" where
  "install_handlers env pid s =
     (case s of (request0, w0) \<Rightarrow>
        let context_name = (case camoufox_context (sr_meta request0) of
                              None \<Rightarrow> DEFAULT_CONTEXT_NAME | Some n \<Rightarrow> n);
            request = request0\<lparr>sr_meta := (sr_meta request0)\<lparr>camoufox_context := Some context_name\<rparr>\<rparr>
        in
        andThen (in_world (attach_page_event_handlers (spider_attributes env) pid
                             (camoufox_page_event_handlers (sr_meta request)) w0) request)
          (\<lambda>u (request, w1).
             case unroute_raises env of
               Some e \<Rightarrow> (Raises e, request, w1)
             | None \<Rightarrow>
                 let w2 = page_route pid None w1 in
                 (case route_raises env of
                    Some e \<Rightarrow> (Raises e, request, w2)
                  | None \<Rightarrow> (Returns (), request, page_route pid (Some request) w2))))"

definition close_page_on_exception ::
  "answers \<Rightarrow> nat \<Rightarrow> scrapy_response outcome \<times> scrapy_request \<times> world
     \<Rightarrow> scrapy_response outcome \<times> scrapy_request \<times> world" where
  "close_page_on_exception env pid result =
     (case result of
        (Raises ex, request, w) \<Rightarrow>
          if \<not> camoufox_include_page (sr_meta request) \<and> \<not> pg_closed (pages w pid)
          then andThen (in_world (close_page env pid w) request)
                 (\<lambda>u (request, w).
                    (Raises ex, request, inc_value ''camoufox/page_count/closed'' w))
          else (Raises ex, request, w)
      | r \<Rightarrow> r)"

definition download_request_with_retry ::
  "answers \<Rightarrow> scrapy_request \<times> world \<Rightarrow> scrapy_response outcome \<times> scrapy_request \<times> world" where
  "download_request_with_retry env s0 =
     (case s0 of (request0, w0) \<Rightarrow>
      andThen (resolve_page env request0 w0)
        (\<lambda>pid s. andThen (install_handlers env pid s)
           (\<lambda>u (request, w).
              close_page_on_exception env pid (download_request_with_page env request pid w))))"

text \<open>
  The loop of \<^verbatim>\<open>_download_request\<close>. \<open>attempt i\<close> is the \<open>i\<close>-th run of
  \<^verbatim>\<open>_download_request_with_retry\<close> (counted from 0); since the counter grows by one with
  every caught \<^verbatim>\<open>TargetClosedError\<close>, it is also the index of the current run. The third
  component of the result is the number of runs made.
\<close>

function download_request_loop ::
  "(nat \<Rightarrow> 's \<Rightarrow> 'r outcome \<times> 's) \<Rightarrow> int \<Rightarrow> nat \<Rightarrow> 's \<Rightarrow> 'r outcome \<times> 's \<times> nat" where
  "download_request_loop attempt bound counter s =
     (case attempt counter s of
        (Raises ex, s') \<Rightarrow>
          if is_TargetClosedError ex
          then (if int (counter + 1) > bound then (Raises ex, s', counter + 1)
                else download_request_loop attempt bound (counter + 1) s')
          else (Raises ex, s', counter + 1)
      | (out, s') \<Rightarrow> (out, s', counter + 1))"
  by pat_completeness auto
termination
  by (relation "measure (\<lambda>(attempt, bound, counter, s). nat (bound + 1 - int counter))") auto

definition download_request ::
  "(nat \<Rightarrow> answers) \<Rightarrow> scrapy_request \<Rightarrow> world
     \<Rightarrow> scrapy_response outcome \<times> (scrapy_request \<times> world) \<times> nat" where
  "download_request envs request w =
     download_request_loop (\<lambda>i. download_request_with_retry (envs i))
       (target_closed_max_retries (config w)) 0 (request, w)"

subsection \<open>Interception of the page's requests\<close>

text \<open>
  The arguments of \<^verbatim>\<open>route.continue_\<close>, and the engine calls one run of the route handler
  makes on the intercepted request.
\<close>

record overrides =
  ov_method :: "string option"
  ov_post_data :: "string option"

datatype engine_call =
    Route_abort pw_request
  | All_headers pw_request
  | Route_continue pw_request overrides

text \<open>
  What \<^verbatim>\<open>_make_request_handler\<close> closes over: the method, url, body and encoding of the
  Scrapy request (immutable values), and two objects the runs of the handler share and
  update, the event \<^verbatim>\<open>initial_request_done\<close> and the request's \<^verbatim>\<open>Headers\<close>.
\<close>

record logical_request =
  lr_method :: string
  lr_url :: string
  lr_body :: "bytes option"
  lr_encoding :: string

record interception =
  initial_request_done :: bool
  ic_headers :: headers
  engine_calls :: "engine_call list"

text \<open>
  What is not in the handler's file: the caller's abort predicate (\<^verbatim>\<open>self.abort_request\<close>,
  \<open>None\<close> when the setting is absent), \<^verbatim>\<open>_is_safe_close_error\<close> of \<^verbatim>\<open>_utils\<close>, the
  codecs behind \<^verbatim>\<open>bytes.decode\<close>, which returns the text or raises, and the case tables
  of the language behind \<^verbatim>\<open>str.upper\<close>.
\<close>

record hooks =
  abort_request :: "(pw_request \<Rightarrow> bool) option"
  is_safe_close_error :: "exn \<Rightarrow> bool"
  decode :: "string \<Rightarrow> bytes \<Rightarrow> exn + string"
  str_upper :: "string \<Rightarrow> string"

definition should_abort :: "hooks \<Rightarrow> pw_request \<Rightarrow> bool" where
  "should_abort hk playwright_request =
     (case abort_request hk of None \<Rightarrow> False | Some p \<Rightarrow> p playwright_request)"

definition is_initial_request :: "logical_request \<Rightarrow> pw_request \<Rightarrow> interception \<Rightarrow> bool" where
  "is_initial_request lr playwright_request ic =
     (rstrip_slash (rq_url playwright_request) = rstrip_slash (lr_url lr)
      \<and> rq_is_navigation_request playwright_request
      \<and> \<not> initial_request_done ic)"

text \<open>
  \<^verbatim>\<open>if body: overrides["post_data"] = body.decode(encoding)\<close>: no payload for an absent
  or empty body, otherwise the decoded body, or the exception the decoding raises.
\<close>

definition post_data :: "hooks \<Rightarrow> logical_request \<Rightarrow> exn + string option" where
  "post_data hk lr =
     (case lr_body lr of
        None \<Rightarrow> Inr None
      | Some b \<Rightarrow> if b = [] then Inr None
                  else (case decode hk (lr_encoding lr) b of
                          Inl ex \<Rightarrow> Inl ex
                        | Inr text \<Rightarrow> Inr (Some text)))"

definition request_handler ::
  "hooks \<Rightarrow> logical_request \<Rightarrow> pw_request \<Rightarrow> exn option \<Rightarrow> interception \<times> world
     \<Rightarrow> unit outcome \<times> interception \<times> world" where
  "request_handler hk lr playwright_request continue_raises s =
     (case s of (ic, w) \<Rightarrow>
      if should_abort hk playwright_request
      then (Returns (),
            ic\<lparr>engine_calls := engine_calls ic @ [Route_abort playwright_request]\<rparr>,
            inc_value ''camoufox/request_count/aborted'' w)
      else
        let ic1 = ic\<lparr>engine_calls := engine_calls ic @ [All_headers playwright_request]\<rparr>;
            final_headers = rq_all_headers playwright_request
        in
        (case
           (if is_initial_request lr playwright_request ic1
            then
              let ic2 = ic1\<lparr>initial_request_done := True\<rparr>;
                  m = (if str_upper hk (lr_method lr) \<noteq> str_upper hk (rq_method playwright_request)
                       then Some (lr_method lr) else None)
              in
              (case post_data hk lr of
                 Inl ex \<Rightarrow> (Raises ex, ic2)
               | Inr payload \<Rightarrow>
                   (Returns \<lparr>ov_method = m, ov_post_data = payload\<rparr>,
                    ic2\<lparr>ic_headers := final_headers\<rparr>))
            else (Returns \<lparr>ov_method = None, ov_post_data = None\<rparr>, ic1)) of
           (Returns ov, ic3) \<Rightarrow>
             let ic4 = ic3\<lparr>engine_calls := engine_calls ic3 @ [Route_continue playwright_request ov]\<rparr>
             in
             (case continue_raises of
                None \<Rightarrow> (Returns (), ic4, w)
              | Some ex \<Rightarrow>
                  if is_PlaywrightError ex \<and> is_safe_close_error hk ex
                  then (Returns (), ic4, w)
                  else (Raises ex, ic4, w))
         | (Raises ex, ic3) \<Rightarrow> (Raises ex, ic3, w)
         | (Blocks, ic3) \<Rightarrow> (Blocks, ic3, w)))"

text \<open>
  The runs of the handler during one fetch, in the order in which they reach the test
  of \<^verbatim>\<open>initial_request_done\<close> (no \<^verbatim>\<open>await\<close> stands between that test and the updates that
  follow it). Each intercepted request comes with the exception \<^verbatim>\<open>route.continue_\<close> raises
  for it, if any. A run that raises does not stop the later ones.
\<close>

definition intercept ::
  "hooks \<Rightarrow> logical_request \<Rightarrow> (pw_request \<times> exn option) list \<Rightarrow> interception \<times> world
     \<Rightarrow> interception \<times> world" where
  "intercept hk lr arrivals s =
     fold (\<lambda>(r, continue_raises) s. snd (request_handler hk lr r continue_raises s)) arrivals s"

definition make_request_handler :: "scrapy_request \<Rightarrow> logical_request \<times> interception" where
  "make_request_handler request =
     (\<lparr>lr_method = sr_method request, lr_url = sr_url request, lr_body = sr_body request,
       lr_encoding = sr_encoding request\<rparr>,
      \<lparr>initial_request_done = False, ic_headers = sr_headers request, engine_calls = []\<rparr>)"

subsection \<open>Auxiliary definitions for the statements\<close>

text \<open>
  The state in which the \<open>i\<close>-th run of the pipeline starts: each run starts where the
  one before it ended.
\<close>

primrec state_before :: "(nat \<Rightarrow> 's \<Rightarrow> 'r outcome \<times> 's) \<Rightarrow> 's \<Rightarrow> nat \<Rightarrow> 's" where
  "state_before attempt s 0 = s"
| "state_before attempt s (Suc i) = snd (attempt i (state_before attempt s i))"

text \<open>
  An example: the first two runs lose their target, the third one returns.
\<close>

definition retry_example :: "nat \<Rightarrow> nat \<Rightarrow> string outcome \<times> nat" where
  "retry_example i s =
     (if i < 2 then (Raises (TargetClosedError ''Target page has been closed''), s + 1)
      else (Returns ''response'', s + 1))"

subsection \<open>Example inputs\<close>

text \<open>
  A handler as \<^verbatim>\<open>__init__\<close> leaves it, with one page per context and no limit on the
  number of contexts, and an engine none of whose calls raises.
\<close>

definition example_settings :: settings where
  "example_settings =
     \<lparr>CAMOUFOX_LAUNCH_OPTIONS = [], CAMOUFOX_MAX_PAGES_PER_CONTEXT = 0,
      CAMOUFOX_MAX_CONTEXTS = 0, CAMOUFOX_CONTEXTS = [],
      CAMOUFOX_DEFAULT_NAVIGATION_TIMEOUT = None,
      CAMOUFOX_RESTART_DISCONNECTED_BROWSER = True, PLAYWRIGHT_THREADED_LOOP = False,
      CONCURRENT_REQUESTS = 1, platform_is_windows = False\<rparr>"

definition fresh_handler :: world where
  "fresh_handler =
     \<lparr>config = from_settings example_settings,
      browser = None, context_wrappers = [], context_semaphore = None, stats = Map.empty,
      launches = [], browser_listeners = [],
      contexts = (\<lambda>c. \<lparr>bc_kwargs = [], bc_pages = [], bc_listeners = [],
                          bc_default_navigation_timeout = None\<rparr>),
      pages = (\<lambda>p. \<lparr>pg_context = 0, pg_closed = True, pg_url = [], pg_listeners = [],
                      pg_route = None, pg_default_navigation_timeout = None\<rparr>),
      next_handle = 0\<rparr>"

text \<open>Upper case on ASCII text, by the table of the 26 letters.\<close>

definition upper_char :: "char \<Rightarrow> char" where
  "upper_char c =
     (case map_of (zip ''abcdefghijklmnopqrstuvwxyz'' ''ABCDEFGHIJKLMNOPQRSTUVWXYZ'') c of
        Some u \<Rightarrow> u
      | None \<Rightarrow> c)"

definition ascii_upper :: "string \<Rightarrow> string" where
  "ascii_upper s = map upper_char s"

definition quiet_answers :: answers where
  "quiet_answers =
     \<lparr>launch_raises = None, new_context_raises = None, new_page_raises = None,
      goto_events = [], goto_result = Inr None, goto_url = ''https://example.org/'',
      wait_events = [], page_content = Inr ''<html></html>'',
      encode_body = (\<lambda>h t. (t, ''utf-8'')), spider_attributes = [],
      unroute_raises = None, route_raises = None, close_raises = None,
      header_key = ascii_upper\<rparr>"

definition example_request :: scrapy_request where
  "example_request =
     \<lparr>sr_method = ''GET'', sr_url = ''https://example.org'', sr_headers = [],
      sr_body = None, sr_encoding = ''utf-8'',
      sr_meta = \<lparr>camoufox_page = None, camoufox_context = None, camoufox_context_kwargs = None,
                 camoufox_include_page = False, camoufox_page_event_handlers = EventHandlers [],
                 camoufox_page_init_callback = None, camoufox_page_methods = [],
                 redirect_times = None, redirect_urls = None, redirect_reasons = None,
                 camoufox_security_details = None, camoufox_suggested_filename = None\<rparr>\<rparr>"

text \<open>The value of the page semaphore of the context registered under a name.\<close>

definition page_slots :: "string \<Rightarrow> world \<Rightarrow> int option" where
  "page_slots name w = map_option semaphore (map_of (context_wrappers w) name)"

text \<open>
  A store with an open page under the handle 1, a response, a finished download of a
  file with the given content, and the answers of a navigation that ends in that
  download: a response is seen, \<^verbatim>\<open>page.goto\<close> raises the download-in-progress error, then
  the download event comes and the download finishes.
\<close>

definition page_world :: world where
  "page_world = fresh_handler\<lparr>pages := (pages fresh_handler)(1 :=
     \<lparr>pg_context = 0, pg_closed = False, pg_url = ''about:blank'', pg_listeners = [],
      pg_route = None, pg_default_navigation_timeout = None\<rparr>)\<rparr>"

definition ok_response :: pw_response where
  "ok_response =
     \<lparr>rs_status = 200, rs_url = ''https://example.org/file.bin'',
      rs_all_headers = [(''content-type'', ''application/octet-stream'')],
      rs_request = PwRequest ''https://example.org/file.bin'' ''GET'' ''document'' True [] (Some 200) None,
      rs_security_details = None, rs_server_ip = None\<rparr>"

definition file_download :: "bytes \<Rightarrow> pw_download" where
  "file_download content =
     \<lparr>pd_url = ''https://example.org/file.bin'', pd_suggested_filename = ''file.bin'',
      pd_failure = None, pd_read_bytes = Inr content\<rparr>"

definition download_answers :: "bytes \<Rightarrow> answers" where
  "download_answers content =
     quiet_answers\<lparr>goto_events := [Ev_response ok_response],
                   goto_result := Inl (PlaywrightError ''Page.goto: Download is starting''),
                   wait_events := [Ev_download (file_download content),
                                   Download_settled (file_download content)]\<rparr>"

text \<open>
  The words of the specification about a navigation that ends in a download. The
  download-started notification is the first response or download event the fetch
  sees; the download has completed when its handling has settled. \<open>until_first P evs\<close>
  is the part of \<open>evs\<close> up to and including the first event with \<open>P\<close>, if there is
  one. \<open>seen_until_started\<close> gives the events the fetch has seen when the notification
  has come: all those emitted during \<^verbatim>\<open>page.goto\<close>, and, if the notification is not among
  them, those emitted afterwards up to it. \<open>seen_until_ready\<close> gives the events seen when
  the download has completed as well. The last observed response is the last response
  event among the events seen.
\<close>

fun starts :: "page_event \<Rightarrow> bool" where
  "starts (Ev_response r) = True"
| "starts (Ev_download d) = True"
| "starts ev = False"

fun settles :: "page_event \<Rightarrow> bool" where
  "settles (Download_settled d) = True"
| "settles ev = False"

fun until_first :: "(page_event \<Rightarrow> bool) \<Rightarrow> page_event list \<Rightarrow> page_event list option" where
  "until_first P [] = None"
| "until_first P (ev # evs) =
     (if P ev then Some [ev] else map_option ((#) ev) (until_first P evs))"

definition seen_until_started :: "page_event list \<Rightarrow> page_event list \<Rightarrow> page_event list option" where
  "seen_until_started during after =
     (if list_ex starts during then Some during
      else map_option ((@) during) (until_first starts after))"

definition seen_until_ready :: "page_event list \<Rightarrow> page_event list \<Rightarrow> page_event list option" where
  "seen_until_ready during after =
     (case seen_until_started during after of
        None \<Rightarrow> None
      | Some seen \<Rightarrow>
          if list_ex settles seen then Some seen
          else map_option ((@) seen)
                 (until_first settles (drop (length seen - length during) after)))"

fun observed_responses :: "page_event list \<Rightarrow> pw_response list" where
  "observed_responses [] = []"
| "observed_responses (Ev_response r # evs) = r # observed_responses evs"
| "observed_responses (ev # evs) = observed_responses evs"

definition last_observed_status :: "page_event list \<Rightarrow> int option" where
  "last_observed_status evs =
     (if observed_responses evs = [] then None
      else Some (rs_status (last (observed_responses evs))))"

definition last_observed_headers :: "page_event list \<Rightarrow> headers" where
  "last_observed_headers evs =
     (if observed_responses evs = [] then []
      else rs_all_headers (last (observed_responses evs)))"

fun settled_downloads :: "page_event list \<Rightarrow> pw_download list" where
  "settled_downloads [] = []"
| "settled_downloads (Download_settled d # evs) = d # settled_downloads evs"
| "settled_downloads (ev # evs) = settled_downloads evs"

text \<open>
  The effect of one event on the local variables of \<^verbatim>\<open>_get_response_and_download\<close> while
  its two closures are subscribed.
\<close>

definition observe :: "page_event \<Rightarrow> navigation \<Rightarrow> navigation" where
  "observe ev nv =
     (case ev of
        Ev_response r \<Rightarrow> handle_response r nv
      | Ev_download d \<Rightarrow> nv\<lparr>download_started := True\<rparr>
      | Download_settled d \<Rightarrow> handle_download_finish d nv
      | _ \<Rightarrow> nv)"

text \<open>
  A response with status 204, and the answers of a navigation that raises the
  download-in-progress error and then sees that response.
\<close>

definition no_content_response :: pw_response where
  "no_content_response = ok_response\<lparr>rs_status := 204, rs_all_headers := []\<rparr>"

definition no_content_answers :: answers where
  "no_content_answers =
     quiet_answers\<lparr>goto_result := Inl (PlaywrightError ''Page.goto: Download is starting''),
                   wait_events := [Ev_response no_content_response]\<rparr>"

text \<open>
  A listener registered for an event is a page-slot callback when it is the callback
  \<^verbatim>\<open>_make_close_page_callback\<close> returns.
\<close>

fun slot_callback :: "string \<times> listener \<Rightarrow> bool" where
  "slot_callback (ev, ClosePageCallback name) = True"
| "slot_callback (ev, l) = False"

text \<open>
  The answers of a navigation during which the page crashes: the page emits \<^verbatim>\<open>crash\<close> and
  \<^verbatim>\<open>page.goto\<close> raises.
\<close>

definition crash_answers :: answers where
  "crash_answers =
     quiet_answers\<lparr>goto_events := [Ev_crash],
                   goto_result := Inl (PlaywrightError ''Page.goto: Page crashed'')\<rparr>"



text \<open>
  A sub-request is eligible to be the initial request when the abort predicate lets it
  through, its url equals the request's url up to trailing slashes, and it is a
  navigation request.
\<close>

definition eligible :: "hooks \<Rightarrow> logical_request \<Rightarrow> pw_request \<Rightarrow> bool" where
  "eligible hk lr r =
     (\<not> should_abort hk r
      \<and> rstrip_slash (rq_url r) = rstrip_slash (lr_url lr)
      \<and> rq_is_navigation_request r)"

text \<open>
  The \<open>i\<close>-th intercepted sub-request is the first eligible one.
\<close>

definition first_eligible ::
  "hooks \<Rightarrow> logical_request \<Rightarrow> (pw_request \<times> exn option) list \<Rightarrow> nat \<Rightarrow> bool" where
  "first_eligible hk lr arrivals i =
     (eligible hk lr (fst (arrivals ! i)) \<and> (\<forall>j<i. \<not> eligible hk lr (fst (arrivals ! j))))"

text \<open>
  An example: the abort predicate stops requests for images; a sub-request for an image
  and sub-requests for the document of \<open>example_request\<close>, with a given method; and a
  request that asks for \<^verbatim>\<open>POST\<close> with a body.
\<close>

definition example_hooks :: hooks where
  "example_hooks =
     \<lparr>abort_request = Some (\<lambda>r. rq_resource_type r = ''image''),
      is_safe_close_error = (\<lambda>ex. sublist ''closed'' (message ex)),
      decode = (\<lambda>encoding b. Inr b),
      str_upper = ascii_upper\<rparr>"

definition image_request :: pw_request where
  "image_request =
     PwRequest ''https://example.org/logo.png'' ''GET'' ''image'' False
       [(''accept'', ''image/*'')] None None"

definition document_request :: "string \<Rightarrow> pw_request" where
  "document_request m =
     PwRequest ''https://example.org/'' m ''document'' True
       [(''user-agent'', ''Mozilla/5.0'')] None None"

definition post_request :: scrapy_request where
  "post_request = example_request\<lparr>sr_method := ''POST'', sr_body := Some ''a=1''\<rparr>"

definition example_arrivals :: "(pw_request \<times> exn option) list" where
  "example_arrivals =
     [(image_request, None), (document_request ''GET'', None), (document_request ''GET'', None)]"



section \<open>Properties\<close>

subsection \<open>Sequencing and frame facts\<close>

lemma andThen_Returns_iff:
  "andThen m f = (Returns b, s') \<longleftrightarrow> (\<exists>a s. m = (Returns a, s) \<and> f a s = (Returns b, s'))"
  by (cases m; cases "fst m") (auto simp: andThen_def split: outcome.splits)

lemma andThen_ReturnsE:
  assumes "andThen m f = (Returns b, s')"
  obtains a s where "m = (Returns a, s)" "f a s = (Returns b, s')"
  using assms andThen_Returns_iff by metis

lemma in_world_eq [simp]:
  "in_world m request = (out, request', w') \<longleftrightarrow> m = (out, w') \<and> request' = request"
  by (cases m) (auto simp: in_world_def)

lemma andThen_simps:
  "andThen (Returns a, s) f = f a s"
  "andThen (Raises e, s) f = (Raises e, s)"
  "andThen (Blocks, s) f = (Blocks, s)"
  by (simp_all add: andThen_def)

lemma andThen_weak_cong: "m = m' \<Longrightarrow> andThen m f = andThen m' f"
  by simp

lemma context_on_frame [simp]:
  "pages (context_on c ev l w) = pages w"
  "context_wrappers (context_on c ev l w) = context_wrappers w"
  "config (context_on c ev l w) = config w"
  "context_semaphore (context_on c ev l w) = context_semaphore w"
  "stats (context_on c ev l w) = stats w"
  "next_handle (context_on c ev l w) = next_handle w"
  by (simp_all add: context_on_def)

text \<open>What the helpers leave unchanged.\<close>

lemma inc_value_frame [simp]:
  "pages (inc_value k w) = pages w"
  "contexts (inc_value k w) = contexts w"
  "context_wrappers (inc_value k w) = context_wrappers w"
  "config (inc_value k w) = config w"
  "context_semaphore (inc_value k w) = context_semaphore w"
  "browser (inc_value k w) = browser w"
  "launches (inc_value k w) = launches w"
  "next_handle (inc_value k w) = next_handle w"
  by (simp_all add: inc_value_def)

lemma set_value_frame [simp]:
  "pages (set_value k v w) = pages w"
  "contexts (set_value k v w) = contexts w"
  "context_wrappers (set_value k v w) = context_wrappers w"
  "config (set_value k v w) = config w"
  "context_semaphore (set_value k v w) = context_semaphore w"
  "browser (set_value k v w) = browser w"
  "launches (set_value k v w) = launches w"
  "next_handle (set_value k v w) = next_handle w"
  by (simp_all add: set_value_def)

lemma set_max_concurrent_page_count_frame [simp]:
  "pages (set_max_concurrent_page_count w) = pages w"
  "contexts (set_max_concurrent_page_count w) = contexts w"
  "context_wrappers (set_max_concurrent_page_count w) = context_wrappers w"
  "config (set_max_concurrent_page_count w) = config w"
  "context_semaphore (set_max_concurrent_page_count w) = context_semaphore w"
  by (simp_all add: set_max_concurrent_page_count_def Let_def)

lemma set_max_concurrent_context_count_frame [simp]:
  "pages (set_max_concurrent_context_count w) = pages w"
  "contexts (set_max_concurrent_context_count w) = contexts w"
  "context_wrappers (set_max_concurrent_context_count w) = context_wrappers w"
  "config (set_max_concurrent_context_count w) = config w"
  "context_semaphore (set_max_concurrent_context_count w) = context_semaphore w"
  by (simp_all add: set_max_concurrent_context_count_def Let_def)

lemma page_on_frame [simp]:
  "contexts (page_on pid ev l w) = contexts w"
  "context_wrappers (page_on pid ev l w) = context_wrappers w"
  "config (page_on pid ev l w) = config w"
  "context_semaphore (page_on pid ev l w) = context_semaphore w"
  "stats (page_on pid ev l w) = stats w"
  by (simp_all add: page_on_def)

lemma page_on_listeners [simp]:
  "pg_listeners (pages (page_on pid ev l w) p) =
     (if p = pid then pg_listeners (pages w pid) @ [(ev, l)] else pg_listeners (pages w p))"
  "pg_closed (pages (page_on pid ev l w) p) = pg_closed (pages w p)"
  "pg_url (pages (page_on pid ev l w) p) = pg_url (pages w p)"
  "pg_context (pages (page_on pid ev l w) p) = pg_context (pages w p)"
  by (simp_all add: page_on_def)

lemma close_page_callback_frame [simp]:
  "pages (close_page_callback name w) = pages w"
  "contexts (close_page_callback name w) = contexts w"
  "config (close_page_callback name w) = config w"
  "stats (close_page_callback name w) = stats w"
  "context_semaphore (close_page_callback name w) = context_semaphore w"
  by (simp_all add: close_page_callback_def split: option.splits)

lemma increment_request_stats_frame [simp]:
  "pages (increment_request_stats r w) = pages w"
  "contexts (increment_request_stats r w) = contexts w"
  "context_wrappers (increment_request_stats r w) = context_wrappers w"
  "config (increment_request_stats r w) = config w"
  by (simp_all add: increment_request_stats_def Let_def)

lemma increment_response_stats_frame [simp]:
  "pages (increment_response_stats r w) = pages w"
  "contexts (increment_response_stats r w) = contexts w"
  "context_wrappers (increment_response_stats r w) = context_wrappers w"
  "config (increment_response_stats r w) = config w"
  by (simp_all add: increment_response_stats_def Let_def)

lemma run_listener_frame [simp]:
  "pages (run_listener l ev w) = pages w"
  "contexts (run_listener l ev w) = contexts w"
  "config (run_listener l ev w) = config w"
  by (cases "(l, ev, w)" rule: run_listener.cases; simp)+

lemma fold_listeners_frame:
  "pages (fold (\<lambda>(name, l) w. if name = n then run_listener l ev w else w) ls w) = pages w
   \<and> contexts (fold (\<lambda>(name, l) w. if name = n then run_listener l ev w else w) ls w) = contexts w
   \<and> config (fold (\<lambda>(name, l) w. if name = n then run_listener l ev w else w) ls w) = config w"
  by (induction ls arbitrary: w) (auto split: prod.splits)

lemma emit_frame [simp]:
  "pages (emit pid ev w) = pages w"
  "contexts (emit pid ev w) = contexts w"
  "config (emit pid ev w) = config w"
  by (simp_all add: emit_def fold_listeners_frame)

lemma page_slots_close_page_callback:
  "page_slots name (close_page_callback name w) = map_option (\<lambda>v. v + 1) (page_slots name w)"
  by (simp add: page_slots_def close_page_callback_def update_conv' split: option.splits)

lemma remove_listener_frame [simp]:
  "contexts (remove_listener pid ev l w) = contexts w"
  "context_wrappers (remove_listener pid ev l w) = context_wrappers w"
  "config (remove_listener pid ev l w) = config w"
  "stats (remove_listener pid ev l w) = stats w"
  by (simp_all add: remove_listener_def)

lemma remove_listener_listeners [simp]:
  "pg_listeners (pages (remove_listener pid ev l w) p) =
     (if p = pid then remove1 (ev, l) (pg_listeners (pages w pid)) else pg_listeners (pages w p))"
  "pg_closed (pages (remove_listener pid ev l w) p) = pg_closed (pages w p)"
  "pg_url (pages (remove_listener pid ev l w) p) = pg_url (pages w p)"
  by (simp_all add: remove_listener_def)

lemma on_event_frame [simp]:
  "pages (snd (on_event pid ev s)) = pages (snd s)"
  "config (snd (on_event pid ev s)) = config (snd s)"
  by (cases s; cases ev; simp add: on_event_def Let_def handle_download_begin_def)
     (cases s; cases ev; simp add: on_event_def Let_def handle_download_begin_def)

lemma fold_on_event_frame [simp]:
  "pages (snd (fold (on_event pid) evs s)) = pages (snd s)"
  "config (snd (fold (on_event pid) evs s)) = config (snd s)"
  by (induction evs arbitrary: s) simp_all

lemma wait_for_frame [simp]:
  "pages (snd (snd (wait_for flag pid evs s))) = pages (snd s)"
  "config (snd (snd (wait_for flag pid evs s))) = config (snd s)"
  by (induction evs arbitrary: s) simp_all

lemma navigate_frame:
  "config (snd (navigate env pid w)) = config w"
  "pg_listeners (pages (snd (navigate env pid w)) pid) =
     pg_listeners (pages w pid) @ [(''download'', HandleDownload), (''response'', HandleResponse)]"
  by (simp_all add: navigate_def Let_def split_beta)

subsection \<open>Redirect metadata\<close>

lemma walk_redirects_hops:
  "walk_redirects r (t, us, rs) =
     (t + length (backward_hops r), us @ map fst (backward_hops r), rs @ map snd (backward_hops r))"
  by (induction r "(t, us, rs)" arbitrary: t us rs rule: walk_redirects.induct) simp_all

lemma set_redirect_meta_hops:
  "set_redirect_meta request response =
     (let hops = rev (backward_hops (rq_redirected_from (rs_request response))) in
      if hops = [] then request
      else request\<lparr>sr_meta := (sr_meta request)\<lparr>
             redirect_times := Some (length hops),
             redirect_urls := Some (map fst hops),
             redirect_reasons := Some (map snd hops)\<rparr>\<rparr>)"
  by (simp add: set_redirect_meta_def walk_redirects_hops Let_def rev_map)

text \<open>
  Claim C6. The redirect metadata is the list of hops found by walking the
  redirected-from links backward, reversed to chronological order: the count is the
  number of hops, the urls and the reasons are the hops' urls and statuses. For a
  response reached via A, B, C (the terminal request \<open>c\<close> redirected from \<open>b\<close>, that
  from \<open>a\<close>, which has no backward link) the metadata is urls \<open>[A, B]\<close>, reasons
  \<open>[status at A, status at B]\<close> and count 2. When the terminal request has no
  redirected-from link the request and its metadata are left as they were.
\<close>

theorem redirect_meta_chronological:
  "set_redirect_meta request response =
     (let hops = rev (backward_hops (rq_redirected_from (rs_request response))) in
      if hops = [] then request
      else request\<lparr>sr_meta := (sr_meta request)\<lparr>
             redirect_times := Some (length hops),
             redirect_urls := Some (map fst hops),
             redirect_reasons := Some (map snd hops)\<rparr>\<rparr>)
   \<and> (let a = PwRequest url_a m_a t_a n_a h_a status_a None;
           b = PwRequest url_b m_b t_b n_b h_b status_b (Some a);
           c = PwRequest url_c m_c t_c n_c h_c status_c (Some b);
           request' = set_redirect_meta request (response\<lparr>rs_request := c\<rparr>) in
        redirect_times (sr_meta request') = Some 2
      \<and> redirect_urls (sr_meta request') = Some [url_a, url_b]
      \<and> redirect_reasons (sr_meta request') = Some [status_a, status_b])
   \<and> (let c = PwRequest url_c m_c t_c n_c h_c status_c None in
        set_redirect_meta request (response\<lparr>rs_request := c\<rparr>) = request)"
  by (simp add: set_redirect_meta_hops Let_def)

subsection \<open>The retry loop\<close>

declare download_request_loop.simps [simp del]

lemma loop_retry:
  assumes "fst (attempt c s) = Raises (TargetClosedError m)" "int (c + 1) \<le> bound"
  shows "download_request_loop attempt bound c s =
         download_request_loop attempt bound (c + 1) (snd (attempt c s))"
  using assms by (subst download_request_loop.simps) (auto split: prod.splits outcome.splits)

lemma loop_returns:
  assumes "fst (attempt c s) = Returns r"
  shows "download_request_loop attempt bound c s = (Returns r, snd (attempt c s), c + 1)"
  using assms by (subst download_request_loop.simps) (auto split: prod.splits outcome.splits)

lemma loop_other_error:
  assumes "fst (attempt c s) = Raises e" "\<not> is_TargetClosedError e"
  shows "download_request_loop attempt bound c s = (Raises e, snd (attempt c s), c + 1)"
  using assms by (subst download_request_loop.simps) (auto split: prod.splits outcome.splits)

lemma loop_exhausted:
  assumes "fst (attempt c s) = Raises (TargetClosedError m)" "bound < int (c + 1)"
  shows "download_request_loop attempt bound c s =
         (Raises (TargetClosedError m), snd (attempt c s), c + 1)"
  using assms by (subst download_request_loop.simps) (auto split: prod.splits outcome.splits)

lemma loop_skip:
  assumes "\<forall>i<k. \<exists>m. fst (attempt i (state_before attempt s i)) = Raises (TargetClosedError m)"
    and "int k \<le> bound"
  shows "download_request_loop attempt bound 0 s =
         download_request_loop attempt bound k (state_before attempt s k)"
  using assms
proof (induction k)
  case 0
  then show ?case by simp
next
  case (Suc k)
  from Suc.prems obtain m where
    m: "fst (attempt k (state_before attempt s k)) = Raises (TargetClosedError m)"
    by blast
  have "download_request_loop attempt bound 0 s =
        download_request_loop attempt bound k (state_before attempt s k)"
    using Suc by simp
  also have "\<dots> = download_request_loop attempt bound (k + 1) (snd (attempt k (state_before attempt s k)))"
    using loop_retry [of attempt k "state_before attempt s k" m bound] m Suc.prems(2) by simp
  finally show ?case by simp
qed

text \<open>
  Claim C2. The pipeline is re-run as a whole while its runs raise the target-closed
  error, up to the configured bound, which \<open>from_settings\<close> leaves at its default 3:
  \<^item> if the first \<open>R\<close> runs raise the target-closed error, \<open>R\<close> is within the bound and
    run \<open>R + 1\<close> returns, the fetch returns that result after \<open>R + 1\<close> runs;
  \<^item> if the first \<open>bound + 1\<close> runs all raise the target-closed error, the fetch raises
    the last of these errors after \<open>bound + 1\<close> runs (one run for a negative bound);
  \<^item> if a run raises an error of another class, the fetch raises that error at once:
    the number of runs made is the number of that run.
\<close>

theorem target_closed_retry_bound:
  fixes attempt :: "nat \<Rightarrow> 's \<Rightarrow> 'r outcome \<times> 's"
  shows
  "(int R \<le> bound
      \<and> (\<forall>i<R. \<exists>m. fst (attempt i (state_before attempt s i)) = Raises (TargetClosedError m))
      \<and> fst (attempt R (state_before attempt s R)) = Returns r
    \<longrightarrow> download_request_loop attempt bound 0 s = (Returns r, state_before attempt s (R + 1), R + 1))
   \<and> ((\<forall>i\<le>nat bound. fst (attempt i (state_before attempt s i)) = Raises (TargetClosedError (msg i)))
    \<longrightarrow> download_request_loop attempt bound 0 s =
          (Raises (TargetClosedError (msg (nat bound))), state_before attempt s (nat bound + 1), nat bound + 1))
   \<and> (int R \<le> bound
      \<and> (\<forall>i<R. \<exists>m. fst (attempt i (state_before attempt s i)) = Raises (TargetClosedError m))
      \<and> fst (attempt R (state_before attempt s R)) = Raises e \<and> \<not> is_TargetClosedError e
    \<longrightarrow> download_request_loop attempt bound 0 s = (Raises e, state_before attempt s (R + 1), R + 1))
   \<and> target_closed_max_retries (from_settings st) = 3
   \<and> download_request envs request w =
       download_request_loop (\<lambda>i. download_request_with_retry (envs i))
         (target_closed_max_retries (config w)) 0 (request, w)"
proof (intro conjI impI)
  assume a: "int R \<le> bound
      \<and> (\<forall>i<R. \<exists>m. fst (attempt i (state_before attempt s i)) = Raises (TargetClosedError m))
      \<and> fst (attempt R (state_before attempt s R)) = Returns r"
  then have "download_request_loop attempt bound 0 s =
        download_request_loop attempt bound R (state_before attempt s R)"
    using loop_skip [of R attempt s bound] by blast
  then show "download_request_loop attempt bound 0 s = (Returns r, state_before attempt s (R + 1), R + 1)"
    using a loop_returns [of attempt R "state_before attempt s R" r bound] by simp
next
  assume a: "\<forall>i\<le>nat bound. fst (attempt i (state_before attempt s i)) = Raises (TargetClosedError (msg i))"
  show "download_request_loop attempt bound 0 s =
          (Raises (TargetClosedError (msg (nat bound))), state_before attempt s (nat bound + 1), nat bound + 1)"
  proof (cases "0 \<le> bound")
    case True
    have "download_request_loop attempt bound 0 s =
        download_request_loop attempt bound (nat bound) (state_before attempt s (nat bound))"
      using loop_skip [of "nat bound" attempt s bound] a True by auto
    then show ?thesis
      using a loop_exhausted [of attempt "nat bound" "state_before attempt s (nat bound)" "msg (nat bound)" bound]
      by simp
  next
    case False
    then have nb: "nat bound = 0" by simp
    from a have "fst (attempt 0 s) = Raises (TargetClosedError (msg 0))" by (simp add: nb)
    then show ?thesis
      using loop_exhausted [of attempt 0 s "msg 0" bound] False by (simp add: nb)
  qed
next
  assume a: "int R \<le> bound
      \<and> (\<forall>i<R. \<exists>m. fst (attempt i (state_before attempt s i)) = Raises (TargetClosedError m))
      \<and> fst (attempt R (state_before attempt s R)) = Raises e \<and> \<not> is_TargetClosedError e"
  then have "download_request_loop attempt bound 0 s =
        download_request_loop attempt bound R (state_before attempt s R)"
    using loop_skip [of R attempt s bound] by blast
  then show "download_request_loop attempt bound 0 s = (Raises e, state_before attempt s (R + 1), R + 1)"
    using a loop_other_error [of attempt R "state_before attempt s R" e bound] by simp
next
  show "target_closed_max_retries (from_settings st) = 3"
    by (simp add: from_settings_def Let_def)
next
  show "download_request envs request w =
       download_request_loop (\<lambda>i. download_request_with_retry (envs i))
         (target_closed_max_retries (config w)) 0 (request, w)"
    by (simp add: download_request_def)
qed

lemma retry_example_states: "state_before retry_example 0 i = i"
  by (induction i) (simp_all add: retry_example_def)

theorem target_closed_retry_bound_witness:
  "int 2 \<le> 3
   \<and> fst (retry_example 0 (state_before retry_example 0 0))
       = Raises (TargetClosedError ''Target page has been closed'')
   \<and> fst (retry_example 1 (state_before retry_example 0 1))
       = Raises (TargetClosedError ''Target page has been closed'')
   \<and> fst (retry_example 2 (state_before retry_example 0 2)) = Returns ''response''
   \<and> download_request_loop retry_example 3 0 0 = (Returns ''response'', 3, 3)"
proof -
  have h1: "\<forall>i<2. \<exists>m. fst (retry_example i (state_before retry_example 0 i)) = Raises (TargetClosedError m)"
    by (simp add: retry_example_def)
  have h2: "fst (retry_example 2 (state_before retry_example 0 2)) = Returns ''response''"
    by (simp add: retry_example_def)
  have "download_request_loop retry_example 3 0 0 =
        (Returns ''response'', state_before retry_example 0 (2 + 1), 2 + 1)"
    using target_closed_retry_bound [of 2 3 retry_example 0 "''response''"] h1 h2 by simp
  then show ?thesis by (simp add: retry_example_states retry_example_def)
qed

subsection \<open>Persistent contexts\<close>

lemma maybe_launch_browser_value:
  "maybe_launch_browser env p w = (Returns c, w') \<Longrightarrow> c = None"
  by (auto simp: maybe_launch_browser_def split: if_splits option.splits)

text \<open>
  Claim C5 says that creating a context whose options hold the persistent
  profile-storage key launches the browser in persistent mode and returns a wrapper
  with the persistent context. The code does launch in persistent mode, but takes the
  context from the value of \<^verbatim>\<open>_maybe_launch_browser\<close>, which is always \<^verbatim>\<open>None\<close>: with
  a true value under the key, \<open>create_browser_context\<close> never returns a wrapper,
  whatever the engine answers. On a fresh handler it raises \<^verbatim>\<open>AttributeError\<close> at
  \<^verbatim>\<open>context.on\<close>, after the persistent launch, and registers no wrapper.
\<close>

theorem persistent_context_never_returned:
  "truthy (map_of kwargs PERSISTENT_CONTEXT_PATH_KEY) \<Longrightarrow>
     fst (create_browser_context env name (Some kwargs) w) \<noteq> Returns wrapper"
proof
  assume t: "truthy (map_of kwargs PERSISTENT_CONTEXT_PATH_KEY)"
    and r: "fst (create_browser_context env name (Some kwargs) w) = Returns wrapper"
  obtain w' where "create_browser_context env name (Some kwargs) w = (Returns wrapper, w')"
    using r by (cases "create_browser_context env name (Some kwargs) w") auto
  then show False
    using t
    by (auto simp: create_browser_context_def andThen_Returns_iff Let_def
             dest!: maybe_launch_browser_value split: if_splits)
qed

theorem persistent_context_never_returned_witness:
  "truthy (map_of [(''user_data_dir'', ''/tmp/profile'')] PERSISTENT_CONTEXT_PATH_KEY)
   \<and> (\<forall>wrapper. fst (create_browser_context quiet_answers ''persistent''
          (Some [(''user_data_dir'', ''/tmp/profile'')]) fresh_handler) \<noteq> Returns wrapper)
   \<and> fst (create_browser_context quiet_answers ''persistent''
          (Some [(''user_data_dir'', ''/tmp/profile'')]) fresh_handler)
       = Raises (AttributeError ''NoneType object has no attribute on'')
   \<and> launches (snd (create_browser_context quiet_answers ''persistent''
          (Some [(''user_data_dir'', ''/tmp/profile'')]) fresh_handler)) = [True]
   \<and> context_wrappers (snd (create_browser_context quiet_answers ''persistent''
          (Some [(''user_data_dir'', ''/tmp/profile'')]) fresh_handler)) = []"
proof -
  have t: "truthy (map_of [(''user_data_dir'', ''/tmp/profile'')] PERSISTENT_CONTEXT_PATH_KEY)"
    by (simp add: truthy_def PERSISTENT_CONTEXT_PATH_KEY_def)
  have e: "create_browser_context quiet_answers ''persistent''
          (Some [(''user_data_dir'', ''/tmp/profile'')]) fresh_handler
       = (Raises (AttributeError ''NoneType object has no attribute on''),
          (inc_value ''camoufox/browser_count''
             (fresh_handler\<lparr>browser := Some 0, launches := [True], next_handle := Suc 0\<rparr>))
          \<lparr>browser_listeners := [(''disconnected'', BrowserDisconnectedCallback)]\<rparr>)"
    using t
    by (simp add: create_browser_context_def andThen_def acquire_context_slot_def
          maybe_launch_browser_def quiet_answers_def fresh_handler_def)
  have l: "launches (snd (create_browser_context quiet_answers ''persistent''
          (Some [(''user_data_dir'', ''/tmp/profile'')]) fresh_handler)) = [True]"
    unfolding e by (simp add: inc_value_def fresh_handler_def)
  have c: "context_wrappers (snd (create_browser_context quiet_answers ''persistent''
          (Some [(''user_data_dir'', ''/tmp/profile'')]) fresh_handler)) = []"
    unfolding e by (simp add: inc_value_def fresh_handler_def)
  show ?thesis
    using t l c
      persistent_context_never_returned [OF t, of quiet_answers "''persistent''" fresh_handler]
    by (simp add: e)
qed

subsection \<open>Page slots and the close and crash notifications\<close>

lemma new_page_Returns:
  "new_page env c w = (Returns pid, w') \<Longrightarrow>
     pg_listeners (pages w' pid) = [] \<and> context_wrappers w' = context_wrappers w"
  by (auto simp: new_page_def split: option.splits)

lemma acquire_page_slot_Returns:
  "acquire_page_slot name wr w = (Returns u, w') \<Longrightarrow> map_of (context_wrappers w') name \<noteq> None"
  by (auto simp: acquire_page_slot_def update_conv' split: if_splits)

lemma create_page_Returns:
  assumes "create_page env request w = (Returns pid, request', w')"
  shows "\<exists>name. camoufox_context (sr_meta request') = Some name
           \<and> map_of (context_wrappers w') name \<noteq> None
           \<and> pg_listeners (pages w' pid) =
               [(''close'', ClosePageCallback name), (''crash'', ClosePageCallback name),
                (''request'', RequestLogger name), (''response'', ResponseLogger name),
                (''request'', IncrementRequestStats), (''response'', IncrementResponseStats)]"
  using assms
  apply (clarsimp simp: create_page_def Let_def andThen_Returns_iff)
  apply (drule new_page_Returns)
  apply (drule acquire_page_slot_Returns)
  apply (clarsimp split: option.splits)
  done

lemma run_listener_no_slot_callback:
  assumes "ev = Ev_close \<or> ev = Ev_crash" "\<not> slot_callback (n, l)"
  shows "run_listener l ev w = w"
  using assms by (cases l) auto

lemma fold_no_slot_callbacks:
  assumes "ev = Ev_close \<or> ev = Ev_crash" "\<not> list_ex slot_callback extra"
  shows "fold (\<lambda>(name, l) w. if name = event_name ev then run_listener l ev w else w) extra w = w"
  using assms(2)
proof (induction extra arbitrary: w)
  case Nil
  then show ?case by simp
next
  case (Cons a extra)
  obtain n l where a: "a = (n, l)" by (cases a)
  from Cons.prems have "\<not> slot_callback (n, l)" "\<not> list_ex slot_callback extra"
    by (simp_all add: a)
  then show ?case
    using Cons.IH run_listener_no_slot_callback [OF assms(1), of n l w] by (simp add: a)
qed

lemma emit_close_or_crash:
  assumes "pg_listeners (pages w pid) =
               [(''close'', ClosePageCallback name), (''crash'', ClosePageCallback name),
                (''request'', RequestLogger name), (''response'', ResponseLogger name),
                (''request'', IncrementRequestStats), (''response'', IncrementResponseStats)]
               @ extra"
    and "\<not> list_ex slot_callback extra"
    and "ev = Ev_close \<or> ev = Ev_crash"
  shows "emit pid ev w = close_page_callback name w"
proof -
  have "emit pid Ev_close w = close_page_callback name w"
    using fold_no_slot_callbacks [of Ev_close extra] assms(2)
    by (simp add: emit_def assms(1))
  moreover have "emit pid Ev_crash w = close_page_callback name w"
    using fold_no_slot_callbacks [of Ev_crash extra] assms(2)
    by (simp add: emit_def assms(1))
  ultimately show ?thesis using assms(3) by blast
qed

lemma page_close_releases:
  assumes "pg_listeners (pages w pid) =
               [(''close'', ClosePageCallback name), (''crash'', ClosePageCallback name),
                (''request'', RequestLogger name), (''response'', ResponseLogger name),
                (''request'', IncrementRequestStats), (''response'', IncrementResponseStats)]
               @ extra"
    and "\<not> list_ex slot_callback extra"
    and "\<not> pg_closed (pages w pid)"
  shows "page_slots name (page_close pid w) = map_option (\<lambda>v. v + 1) (page_slots name w)"
proof -
  define w1 where "w1 = w\<lparr>pages := (pages w)(pid := (pages w pid)\<lparr>pg_closed := True\<rparr>),
                contexts := (contexts w)(pg_context (pages w pid) :=
                  (contexts w (pg_context (pages w pid)))\<lparr>
                    bc_pages := removeAll pid (bc_pages (contexts w (pg_context (pages w pid))))\<rparr>)\<rparr>"
  have l1: "pg_listeners (pages w1 pid) = pg_listeners (pages w pid)"
    and s1: "page_slots name w1 = page_slots name w"
    by (simp_all add: w1_def page_slots_def)
  have "page_close pid w = emit pid Ev_close w1"
    using assms(3) by (simp add: page_close_def w1_def)
  also have "\<dots> = close_page_callback name w1"
    by (rule emit_close_or_crash [OF _ assms(2)]) (simp_all add: l1 assms(1))
  finally show ?thesis
    by (simp add: page_slots_close_page_callback s1)
qed

lemma maybe_launch_browser_ok:
  assumes "launch_raises env = None"
  shows "\<exists>w'. maybe_launch_browser env p w = (Returns None, w')
           \<and> context_wrappers w' = context_wrappers w \<and> config w' = config w
           \<and> pages w' = pages w \<and> context_semaphore w' = context_semaphore w"
  using assms by (simp add: maybe_launch_browser_def)

lemma new_context_ok:
  assumes "new_context_raises env = None"
  shows "\<exists>w'. new_context env kwargs w = (Returns (next_handle w), w')
           \<and> context_wrappers w' = context_wrappers w \<and> config w' = config w
           \<and> pages w' = pages w \<and> context_semaphore w' = context_semaphore w"
  using assms by (simp add: new_context_def)

lemma create_browser_context_ok:
  assumes "context_semaphore w = None"
    and "\<not> truthy (map_of (case kw of None \<Rightarrow> [] | Some k \<Rightarrow> k) PERSISTENT_CONTEXT_PATH_KEY)"
    and "launch_raises env = None" "new_context_raises env = None"
    and "0 \<le> max_pages_per_context (config w)"
  shows "\<exists>wr w'. create_browser_context env name kw w = (Returns wr, w')
           \<and> semaphore wr = max_pages_per_context (config w)
           \<and> context_wrappers w' = AList.update name wr (context_wrappers w)
           \<and> config w' = config w \<and> pages w' = pages w"
proof -
  obtain w1 where w1: "maybe_launch_browser env False w = (Returns None, w1)"
    "context_wrappers w1 = context_wrappers w" "config w1 = config w" "pages w1 = pages w"
    using maybe_launch_browser_ok [OF assms(3)] by blast
  obtain w2 where w2: "new_context env (case kw of None \<Rightarrow> [] | Some k \<Rightarrow> k) w1 = (Returns (next_handle w1), w2)"
    "context_wrappers w2 = context_wrappers w1" "config w2 = config w1" "pages w2 = pages w1"
    using new_context_ok [OF assms(4)] by blast
  show ?thesis
    using assms(1,2,5) w1 w2
    by (simp add: create_browser_context_def acquire_context_slot_def andThen_simps Let_def
          split: option.splits cong: andThen_weak_cong)
qed

lemma new_page_ok:
  assumes "new_page_raises env = None"
  shows "new_page env c w = (Returns (next_handle w), snd (new_page env c w))
           \<and> context_wrappers (snd (new_page env c w)) = context_wrappers w
           \<and> config (snd (new_page env c w)) = config w
           \<and> \<not> pg_closed (pages (snd (new_page env c w)) (next_handle w))"
  using assms by (simp add: new_page_def)

lemma acquire_page_slot_ok:
  assumes "0 < semaphore wr"
  shows "acquire_page_slot name wr w =
           (Returns (), w\<lparr>context_wrappers :=
              AList.update name (wr\<lparr>semaphore := semaphore wr - 1\<rparr>) (context_wrappers w)\<rparr>)"
  using assms by (simp add: acquire_page_slot_def)

lemma create_page_ok:
  assumes "name = (case camoufox_context (sr_meta request) of
                     None \<Rightarrow> DEFAULT_CONTEXT_NAME | Some n \<Rightarrow> n)"
    and "map_of (context_wrappers w) name = None"
    and "context_semaphore w = None"
    and "\<not> truthy (map_of (case camoufox_context_kwargs (sr_meta request) of
                              None \<Rightarrow> [] | Some k \<Rightarrow> k) PERSISTENT_CONTEXT_PATH_KEY)"
    and "launch_raises env = None" "new_context_raises env = None" "new_page_raises env = None"
    and "0 < max_pages_per_context (config w)"
  shows "\<exists>pid w'. create_page env request w =
           (Returns pid, request\<lparr>sr_meta := (sr_meta request)\<lparr>camoufox_context := Some name\<rparr>\<rparr>, w')
         \<and> page_slots name w' = Some (max_pages_per_context (config w) - 1)
         \<and> \<not> pg_closed (pages w' pid)"
proof -
  define request1 where
    "request1 = request\<lparr>sr_meta := (sr_meta request)\<lparr>camoufox_context := Some name\<rparr>\<rparr>"
  have kw: "camoufox_context_kwargs (sr_meta request1) = camoufox_context_kwargs (sr_meta request)"
    by (simp add: request1_def)
  obtain wr w1 where c: "create_browser_context env name (camoufox_context_kwargs (sr_meta request1)) w
        = (Returns wr, w1)"
    and wr: "semaphore wr = max_pages_per_context (config w)"
    and w1: "context_wrappers w1 = AList.update name wr (context_wrappers w)" "config w1 = config w"
    using create_browser_context_ok [of w "camoufox_context_kwargs (sr_meta request)" env name]
      assms(3-6,8) kw by auto
  define w2 where "w2 = w1\<lparr>context_wrappers :=
              AList.update name (wr\<lparr>semaphore := semaphore wr - 1\<rparr>) (context_wrappers w1)\<rparr>"
  have a: "acquire_page_slot name wr w1 = (Returns (), w2)"
    using acquire_page_slot_ok [of wr name w1] wr assms(8) by (simp add: w2_def)
  define w3 where "w3 = snd (new_page env (context_obj wr) w2)"
  have n: "new_page env (context_obj wr) w2 = (Returns (next_handle w2), w3)"
    "context_wrappers w3 = context_wrappers w2" "config w3 = config w2"
    "\<not> pg_closed (pages w3 (next_handle w2))"
    using new_page_ok [OF assms(7), of "context_obj wr" w2] by (simp_all add: w3_def)
  have slots: "page_slots name w3 = Some (max_pages_per_context (config w) - 1)"
    by (simp add: page_slots_def n(2) w2_def update_conv' wr)
  show ?thesis
    unfolding create_page_def
    using assms(2) c a n slots
    by (simp add: assms(1) [symmetric] request1_def [symmetric] andThen_simps in_world_def
          page_slots_def Let_def split: option.splits cong: andThen_weak_cong)
qed

lemma created_page_releases:
  assumes "create_page env request w = (Returns pid, request', w')"
    and "pg_listeners (pages w2 pid) = pg_listeners (pages w' pid) @ extra"
    and "\<not> list_ex slot_callback extra"
  shows "\<exists>name slots.
           camoufox_context (sr_meta request') = Some name
         \<and> page_slots name w' = Some slots
         \<and> emit pid Ev_crash w2 = close_page_callback name w2
         \<and> emit pid Ev_close w2 = close_page_callback name w2
         \<and> (\<not> pg_closed (pages w2 pid) \<longrightarrow>
              page_slots name (page_close pid w2) = map_option (\<lambda>v. v + 1) (page_slots name w2)
            \<and> page_slots name (page_close pid (emit pid Ev_crash w2))
                = map_option (\<lambda>v. v + 2) (page_slots name w2))"
proof -
  from create_page_Returns [OF assms(1)] obtain name where
    n: "camoufox_context (sr_meta request') = Some name"
    and r: "map_of (context_wrappers w') name \<noteq> None"
    and l: "pg_listeners (pages w' pid) =
               [(''close'', ClosePageCallback name), (''crash'', ClosePageCallback name),
                (''request'', RequestLogger name), (''response'', ResponseLogger name),
                (''request'', IncrementRequestStats), (''response'', IncrementResponseStats)]"
    by blast
  have l2: "pg_listeners (pages w2 pid) =
               [(''close'', ClosePageCallback name), (''crash'', ClosePageCallback name),
                (''request'', RequestLogger name), (''response'', ResponseLogger name),
                (''request'', IncrementRequestStats), (''response'', IncrementResponseStats)]
               @ extra"
    using assms(2) l by simp
  from r obtain slots where s: "page_slots name w' = Some slots"
    by (auto simp: page_slots_def)
  have crash: "emit pid Ev_crash w2 = close_page_callback name w2"
    by (rule emit_close_or_crash [OF l2 assms(3)]) simp
  have close: "emit pid Ev_close w2 = close_page_callback name w2"
    by (rule emit_close_or_crash [OF l2 assms(3)]) simp
  have both: "page_slots name (page_close pid (emit pid Ev_crash w2))
                = map_option (\<lambda>v. v + 2) (page_slots name w2)"
    if o: "\<not> pg_closed (pages w2 pid)"
  proof -
    have "page_slots name (page_close pid (close_page_callback name w2))
            = map_option (\<lambda>v. v + 1) (page_slots name (close_page_callback name w2))"
      by (rule page_close_releases [OF _ assms(3)]) (simp_all add: l2 o)
    then show ?thesis
      by (cases "page_slots name w2") (simp_all add: crash page_slots_close_page_callback)
  qed
  have one: "page_slots name (page_close pid w2) = map_option (\<lambda>v. v + 1) (page_slots name w2)"
    if o: "\<not> pg_closed (pages w2 pid)"
    by (rule page_close_releases [OF l2 assms(3) o])
  show ?thesis
    using n s crash close one both by blast
qed

text \<open>
  Claim C4 says that the close and the crash notification of a page together release
  exactly one slot of the page semaphore, the second of them being a no-op. The code
  registers one callback for both, and the callback keeps no record of having run. For
  a page created by \<open>create_page\<close>, in any later store \<open>w2\<close> where the page has the
  listeners it was created with, followed by any that are not page-slot callbacks (the
  closures of a navigation, the caller's own handlers): the crash notification releases
  one slot, and so does the close notification; closing the open page releases one slot;
  and closing it after it has crashed releases a second one, so that the creation of
  the page, which took one slot, is answered by two releases.
\<close>

theorem close_and_crash_each_release_a_slot:
  assumes "create_page env request w = (Returns pid, request', w')"
    and "pg_listeners (pages w2 pid) = pg_listeners (pages w' pid) @ extra"
    and "\<not> list_ex slot_callback extra"
    and "\<not> pg_closed (pages w2 pid)"
  shows "\<exists>name slots.
           camoufox_context (sr_meta request') = Some name
         \<and> page_slots name w' = Some slots
         \<and> page_slots name (emit pid Ev_crash w2) = map_option (\<lambda>v. v + 1) (page_slots name w2)
         \<and> page_slots name (emit pid Ev_close w2) = map_option (\<lambda>v. v + 1) (page_slots name w2)
         \<and> page_slots name (page_close pid w2) = map_option (\<lambda>v. v + 1) (page_slots name w2)
         \<and> page_slots name (page_close pid (emit pid Ev_crash w2))
             = map_option (\<lambda>v. v + 2) (page_slots name w2)"
proof -
  from created_page_releases [OF assms(1,2,3)] assms(4) obtain name slots where
    "camoufox_context (sr_meta request') = Some name" "page_slots name w' = Some slots"
    "emit pid Ev_crash w2 = close_page_callback name w2"
    "emit pid Ev_close w2 = close_page_callback name w2"
    "page_slots name (page_close pid w2) = map_option (\<lambda>v. v + 1) (page_slots name w2)"
    "page_slots name (page_close pid (emit pid Ev_crash w2))
       = map_option (\<lambda>v. v + 2) (page_slots name w2)"
    by blast
  then show ?thesis
    by (auto simp: page_slots_close_page_callback)
qed

lemma create_page_fresh:
  assumes "launch_raises env = None" "new_context_raises env = None" "new_page_raises env = None"
    and "camoufox_context (sr_meta request) = None"
    and "camoufox_context_kwargs (sr_meta request) = None"
  shows "\<exists>pid. create_page env request fresh_handler =
      (Returns pid,
       request\<lparr>sr_meta := (sr_meta request)\<lparr>camoufox_context := Some ''default''\<rparr>\<rparr>,
       snd (snd (create_page env request fresh_handler)))
    \<and> page_slots ''default'' (snd (snd (create_page env request fresh_handler))) = Some 0
    \<and> \<not> pg_closed (pages (snd (snd (create_page env request fresh_handler))) pid)"
proof -
  have "\<exists>pid w'. create_page env request fresh_handler =
           (Returns pid, request\<lparr>sr_meta := (sr_meta request)\<lparr>camoufox_context := Some ''default''\<rparr>\<rparr>, w')
         \<and> page_slots ''default'' w' = Some (max_pages_per_context (config fresh_handler) - 1)
         \<and> \<not> pg_closed (pages w' pid)"
    by (rule create_page_ok)
       (simp_all add: fresh_handler_def assms
          DEFAULT_CONTEXT_NAME_def truthy_def from_settings_def example_settings_def)
  moreover have "max_pages_per_context (config fresh_handler) = 1"
    by (simp add: fresh_handler_def from_settings_def example_settings_def)
  ultimately show ?thesis by auto
qed

lemma create_page_example:
  assumes "launch_raises env = None" "new_context_raises env = None" "new_page_raises env = None"
  shows "\<exists>pid. create_page env example_request fresh_handler =
      (Returns pid,
       example_request\<lparr>sr_meta := (sr_meta example_request)\<lparr>camoufox_context := Some ''default''\<rparr>\<rparr>,
       snd (snd (create_page env example_request fresh_handler)))
    \<and> page_slots ''default'' (snd (snd (create_page env example_request fresh_handler))) = Some 0
    \<and> \<not> pg_closed (pages (snd (snd (create_page env example_request fresh_handler))) pid)"
  by (rule create_page_fresh) (simp_all add: assms example_request_def)

lemma quiet_answers_engine [simp]:
  "launch_raises quiet_answers = None" "new_context_raises quiet_answers = None"
  "new_page_raises quiet_answers = None" "unroute_raises quiet_answers = None"
  "route_raises quiet_answers = None" "close_raises quiet_answers = None"
  by (simp_all add: quiet_answers_def)

theorem close_and_crash_each_release_a_slot_witness:
  "\<exists>pid. fst (create_page quiet_answers example_request fresh_handler) = Returns pid
     \<and> \<not> pg_closed (pages (snd (snd (create_page quiet_answers example_request fresh_handler))) pid)
     \<and> max_pages_per_context (config fresh_handler) = 1
     \<and> page_slots ''default'' (snd (snd (create_page quiet_answers example_request fresh_handler)))
         = Some 0
     \<and> page_slots ''default''
         (emit pid Ev_crash (snd (snd (create_page quiet_answers example_request fresh_handler))))
         = Some 1
     \<and> page_slots ''default''
         (page_close pid
            (emit pid Ev_crash (snd (snd (create_page quiet_answers example_request fresh_handler)))))
         = Some 2"
proof -
  let ?w = "snd (snd (create_page quiet_answers example_request fresh_handler))"
  from create_page_example [of quiet_answers] obtain pid where
    c: "create_page quiet_answers example_request fresh_handler =
      (Returns pid,
       example_request\<lparr>sr_meta := (sr_meta example_request)\<lparr>camoufox_context := Some ''default''\<rparr>\<rparr>,
       ?w)"
    and s: "page_slots ''default'' ?w = Some 0"
    and o: "\<not> pg_closed (pages ?w pid)"
    by auto
  have f: "fst (create_page quiet_answers example_request fresh_handler) = Returns pid"
    by (subst c) simp
  have m: "max_pages_per_context (config fresh_handler) = 1"
    by (simp add: fresh_handler_def from_settings_def example_settings_def)
  have x: "\<not> list_ex slot_callback []" by simp
  have l: "pg_listeners (pages ?w pid) = pg_listeners (pages ?w pid) @ []" by simp
  from close_and_crash_each_release_a_slot [OF c l x o] s
  have "page_slots ''default'' (emit pid Ev_crash ?w) = Some 1"
    "page_slots ''default'' (page_close pid (emit pid Ev_crash ?w)) = Some 2"
    by auto
  with f m s o show ?thesis by blast
qed

subsection \<open>Navigation or download\<close>

lemma remove_listeners_restores:
  assumes "pages w2 = pages w3"
    and "pg_listeners (pages w3 pid) = L @ [(''download'', HandleDownload), (''response'', HandleResponse)]"
    and "(''download'', HandleDownload) \<notin> set L" "(''response'', HandleResponse) \<notin> set L"
  shows "pg_listeners (pages (remove_listeners pid w2) pid) = L"
  using assms by (simp add: remove_listeners_def remove1_append)

lemma arbiter_cases:
  assumes nav: "navigate env pid w = (nv1, w3)"
  shows "get_response_and_download env request pid w =
     (case goto_result env of
        Inr response \<Rightarrow>
          (Returns (response,
                    if download_bool (nv_download nv1) then Some (nv_download nv1) else None),
           remove_listeners pid w3)
      | Inl err \<Rightarrow>
          if \<not> is_PlaywrightError err then (Raises err, remove_listeners pid w3)
          else if \<not> download_is_starting (config w) err then (Raises err, remove_listeners pid w3)
          else
            (case wait_for download_started pid (wait_events env) (nv1, w3) of
               (None, nv2, w4) \<Rightarrow> (Blocks, w4)
             | (Some evs, nv2, w4) \<Rightarrow>
                 if dl_response_status (nv_download nv2) = 204
                 then (Raises err, remove_listeners pid w4)
                 else
                   (case wait_for download_ready pid evs (nv2, w4) of
                      (None, nv3, w5) \<Rightarrow> (Blocks, w5)
                    | (Some evs', nv3, w5) \<Rightarrow>
                        (Returns (None,
                                  if download_bool (nv_download nv3)
                                  then Some (nv_download nv3) else None),
                         remove_listeners pid w5))))"
  by (simp add: get_response_and_download_def nav)

lemma arbiter_listeners_and_result:
  assumes d: "(''download'', HandleDownload) \<notin> set (pg_listeners (pages w pid))"
    and r: "(''response'', HandleResponse) \<notin> set (pg_listeners (pages w pid))"
    and g: "get_response_and_download env request pid w = (out, w')"
  shows "(if out = Blocks then True else pg_listeners (pages w' pid) = pg_listeners (pages w pid))
       \<and> (case out of
            Returns (response, download) \<Rightarrow>
              (case download of Some dl \<Rightarrow> download_bool dl | None \<Rightarrow> True)
              \<and> (case goto_result env of Inr rs \<Rightarrow> response = rs | Inl err \<Rightarrow> response = None)
          | Raises e \<Rightarrow> goto_result env = Inl e
          | Blocks \<Rightarrow> (case goto_result env of Inr rs \<Rightarrow> False | Inl err \<Rightarrow> True))"
proof -
  obtain nv1 w3 where nav: "navigate env pid w = (nv1, w3)" by force
  have l3: "pg_listeners (pages w3 pid) =
      pg_listeners (pages w pid) @ [(''download'', HandleDownload), (''response'', HandleResponse)]"
    using navigate_frame(2) [of env pid w] nav by simp
  note rest = remove_listeners_restores [OF _ l3 d r]
  show ?thesis
  proof (cases "goto_result env")
    case (Inr response)
    then show ?thesis
      using g rest [of w3] by (auto simp: arbiter_cases [OF nav])
  next
    case (Inl err)
    show ?thesis
    proof (cases "is_PlaywrightError err \<and> download_is_starting (config w) err")
      case False
      then have "get_response_and_download env request pid w = (Raises err, remove_listeners pid w3)"
        using Inl by (auto simp: arbiter_cases [OF nav])
      then show ?thesis
        using g Inl rest [of w3] by auto
    next
      case True
      obtain o1 nv2 w4 where w1: "wait_for download_started pid (wait_events env) (nv1, w3) = (o1, nv2, w4)"
        by (metis prod_cases3)
      have p4: "pages w4 = pages w3"
        using wait_for_frame(1) [of download_started pid "wait_events env" "(nv1, w3)"] w1 by simp
      show ?thesis
      proof (cases o1)
        case None
        then show ?thesis
          using g Inl True w1 by (auto simp: arbiter_cases [OF nav])
      next
        case (Some evs)
        show ?thesis
        proof (cases "dl_response_status (nv_download nv2) = 204")
          case True
          then show ?thesis
            using g Inl \<open>is_PlaywrightError err \<and> download_is_starting (config w) err\<close> w1 Some rest [OF p4]
            by (auto simp: arbiter_cases [OF nav])
        next
          case False
          obtain o2 nv3 w5 where w2: "wait_for download_ready pid evs (nv2, w4) = (o2, nv3, w5)"
            by (metis prod_cases3)
          have p5: "pages w5 = pages w3"
            using wait_for_frame(1) [of download_ready pid evs "(nv2, w4)"] w2 p4 by simp
          show ?thesis
            using g Inl \<open>is_PlaywrightError err \<and> download_is_starting (config w) err\<close> w1 w2 Some False rest [OF p5]
            by (cases o2) (auto simp: arbiter_cases [OF nav])
        qed
      qed
    qed
  qed
qed

lemmas arbiter_eval =
  navigate_def quiet_answers_def download_answers_def Download_def download_bool_def Let_def
  on_event_def page_world_def fresh_handler_def page_on_def emit_def handle_response_def
  ok_response_def from_settings_def example_settings_def file_download_def
  handle_download_begin_def handle_download_finish_def

lemma download_is_starting_example:
  "download_is_starting (config page_world) (PlaywrightError ''Page.goto: Download is starting'')"
proof -
  have "sublist ''Download is starting'' ''Page.goto: Download is starting''"
    by code_simp
  then show ?thesis
    by (simp add: download_is_starting_def page_world_def fresh_handler_def from_settings_def
          example_settings_def)
qed

lemma page_world_listeners:
  "(''download'', HandleDownload) \<notin> set (pg_listeners (pages page_world 1))"
  "(''response'', HandleResponse) \<notin> set (pg_listeners (pages page_world 1))"
  by (simp_all add: page_world_def)

lemma no_response_no_download:
  "get_response_and_download quiet_answers example_request 1 page_world =
     (Returns (None, None), snd (get_response_and_download quiet_answers example_request 1 page_world))"
  by (simp add: get_response_and_download_def arbiter_eval)

text \<open>
  Claim C9, amended. When \<open>get_response_and_download\<close> returns or raises, the page has
  the listeners it had before: the two closures subscribed for the navigation are
  removed (they are new objects, so they were not subscribed before). A run that
  raises raises the error of \<^verbatim>\<open>page.goto\<close>. A run that returns gives a pair: the response
  is the one \<^verbatim>\<open>page.goto\<close> returned, which may be none, and none on the download path; the
  download, if present, has a body or a recorded exception. Neither a response nor a
  download need be present. A run that never ends is one whose \<^verbatim>\<open>page.goto\<close> raised.
\<close>

theorem arbiter_result_and_listeners:
  assumes "(''download'', HandleDownload) \<notin> set (pg_listeners (pages w pid))"
    and "(''response'', HandleResponse) \<notin> set (pg_listeners (pages w pid))"
    and "get_response_and_download env request pid w = (out, w')"
  shows "(if out = Blocks then True else pg_listeners (pages w' pid) = pg_listeners (pages w pid))
       \<and> (case out of
            Returns (response, download) \<Rightarrow>
              (case download of Some dl \<Rightarrow> download_bool dl | None \<Rightarrow> True)
              \<and> (case goto_result env of Inr rs \<Rightarrow> response = rs | Inl err \<Rightarrow> response = None)
          | Raises e \<Rightarrow> goto_result env = Inl e
          | Blocks \<Rightarrow> (case goto_result env of Inr rs \<Rightarrow> False | Inl err \<Rightarrow> True))"
  using arbiter_listeners_and_result [OF assms] .

theorem arbiter_result_and_listeners_witness:
  "(''download'', HandleDownload) \<notin> set (pg_listeners (pages page_world 1))
   \<and> (''response'', HandleResponse) \<notin> set (pg_listeners (pages page_world 1))
   \<and> fst (get_response_and_download quiet_answers example_request 1 page_world)
       = Returns (None, None)
   \<and> pg_listeners (pages (snd (get_response_and_download quiet_answers example_request 1 page_world)) 1)
       = pg_listeners (pages page_world 1)"
proof -
  have "pg_listeners (pages (snd (get_response_and_download quiet_answers example_request 1 page_world)) 1)
       = pg_listeners (pages page_world 1)"
    using arbiter_result_and_listeners [OF page_world_listeners no_response_no_download]
    by simp
  moreover have "fst (get_response_and_download quiet_answers example_request 1 page_world)
       = Returns (None, None)"
    by (subst no_response_no_download) simp
  ultimately show ?thesis
    using page_world_listeners by simp
qed

text \<open>
  The claim as stated fails: when \<^verbatim>\<open>page.goto\<close> returns no response and nothing is
  downloaded, the result is neither a response, nor a download, nor an exception.
\<close>

theorem arbiter_neither_response_nor_download:
  "goto_result quiet_answers = Inr None
   \<and> fst (get_response_and_download quiet_answers example_request 1 page_world)
       = Returns (None, None)"
proof -
  have "fst (get_response_and_download quiet_answers example_request 1 page_world)
       = Returns (None, None)"
    by (subst no_response_no_download) simp
  then show ?thesis by (simp add: quiet_answers_def)
qed

subsection \<open>A navigation that ends in a download\<close>

lemma Download_simps:
  "dl_body Download = []" "dl_url Download = []" "dl_suggested_filename Download = []"
  "dl_exception Download = None" "dl_response_status Download = 200" "dl_headers Download = []"
  by (simp_all add: Download_def)

lemma observe_simps:
  "observe (Ev_response r) nv = handle_response r nv"
  "observe (Ev_download d) nv = nv\<lparr>download_started := True\<rparr>"
  "observe (Download_settled d) nv = handle_download_finish d nv"
  "observe Ev_close nv = nv"
  "observe Ev_crash nv = nv"
  "observe (Ev_request q) nv = nv"
  by (simp_all add: observe_def)

lemma on_event_observe:
  assumes "(''response'', HandleResponse) \<in> set (pg_listeners (pages (snd s) pid))"
    and "(''download'', HandleDownload) \<in> set (pg_listeners (pages (snd s) pid))"
  shows "fst (on_event pid ev s) = observe ev (fst s)"
  using assms
  by (cases s; cases ev)
     (simp_all add: on_event_def observe_simps Let_def handle_download_begin_def)

lemma fold_on_event_observe:
  assumes "(''response'', HandleResponse) \<in> set (pg_listeners (pages (snd s) pid))"
    and "(''download'', HandleDownload) \<in> set (pg_listeners (pages (snd s) pid))"
  shows "fst (fold (on_event pid) evs s) = fold observe evs (fst s)"
  using assms
proof (induction evs arbitrary: s)
  case Nil
  then show ?case by simp
next
  case (Cons ev evs)
  have "fst (fold (on_event pid) evs (on_event pid ev s)) = fold observe evs (fst (on_event pid ev s))"
    by (rule Cons.IH) (simp_all add: Cons.prems)
  then show ?case
    by (simp add: on_event_observe [OF Cons.prems])
qed

lemma wait_for_set:
  "flag (fst s) \<Longrightarrow> wait_for flag pid evs s = (Some evs, s)"
  by (cases evs) simp_all

lemma wait_for_until_first:
  assumes step: "\<And>ev nv. flag (observe ev nv) = (flag nv \<or> P ev)"
    and "(''response'', HandleResponse) \<in> set (pg_listeners (pages (snd s) pid))"
    and "(''download'', HandleDownload) \<in> set (pg_listeners (pages (snd s) pid))"
    and "\<not> flag (fst s)"
  shows "wait_for flag pid evs s =
     (case until_first P evs of
        None \<Rightarrow> (None, fold (on_event pid) evs s)
      | Some p \<Rightarrow> (Some (drop (length p) evs), fold (on_event pid) p s))"
  using assms(2-)
proof (induction evs arbitrary: s)
  case Nil
  then show ?case by simp
next
  case (Cons ev evs)
  have f: "flag (fst (on_event pid ev s)) = P ev"
    using Cons.prems(3) by (simp add: on_event_observe [OF Cons.prems(1,2)] step)
  show ?case
  proof (cases "P ev")
    case True
    then show ?thesis
      using Cons.prems(3) f by (simp add: wait_for_set)
  next
    case False
    have "wait_for flag pid evs (on_event pid ev s) =
     (case until_first P evs of
        None \<Rightarrow> (None, fold (on_event pid) evs (on_event pid ev s))
      | Some p \<Rightarrow> (Some (drop (length p) evs), fold (on_event pid) p (on_event pid ev s)))"
      by (rule Cons.IH) (simp_all add: Cons.prems f False)
    then show ?thesis
      using Cons.prems(3) False by (simp split: option.splits)
  qed
qed

lemma observe_started:
  "download_started (observe ev nv) = (download_started nv \<or> starts ev)"
  by (cases ev)
     (simp_all add: observe_simps handle_response_def handle_download_finish_def Let_def
        split: sum.splits)

lemma observe_ready:
  "download_ready (observe ev nv) = (download_ready nv \<or> settles ev)"
  by (cases ev)
     (simp_all add: observe_simps handle_response_def handle_download_finish_def Let_def
        split: sum.splits)

lemma fold_observe_started:
  "download_started (fold observe evs nv) = (download_started nv \<or> list_ex starts evs)"
  by (induction evs arbitrary: nv) (auto simp: observe_started)

lemma fold_observe_ready:
  "download_ready (fold observe evs nv) = (download_ready nv \<or> list_ex settles evs)"
  by (induction evs arbitrary: nv) (auto simp: observe_ready)

lemma observed_responses_append:
  "observed_responses (xs @ ys) = observed_responses xs @ observed_responses ys"
  by (induction xs rule: observed_responses.induct) simp_all

lemma settled_downloads_append:
  "settled_downloads (xs @ ys) = settled_downloads xs @ settled_downloads ys"
  by (induction xs rule: settled_downloads.induct) simp_all

lemma fold_observe_response:
  "dl_response_status (nv_download (fold observe evs nv)) =
     (case last_observed_status evs of
        None \<Rightarrow> dl_response_status (nv_download nv) | Some st \<Rightarrow> st)
   \<and> dl_headers (nv_download (fold observe evs nv)) =
     (if observed_responses evs = [] then dl_headers (nv_download nv)
      else last_observed_headers evs)"
proof (induction evs rule: rev_induct)
  case Nil
  then show ?case by (simp add: last_observed_status_def)
next
  case (snoc ev evs)
  then show ?case
    by (cases ev)
       (simp_all add: observe_simps handle_response_def handle_download_finish_def Let_def
          last_observed_status_def last_observed_headers_def observed_responses_append
          split: sum.splits)
qed

lemma fold_observe_no_settled:
  assumes "settled_downloads evs = []"
  shows "dl_body (nv_download (fold observe evs nv)) = dl_body (nv_download nv)
       \<and> dl_url (nv_download (fold observe evs nv)) = dl_url (nv_download nv)
       \<and> dl_suggested_filename (nv_download (fold observe evs nv))
           = dl_suggested_filename (nv_download nv)
       \<and> dl_exception (nv_download (fold observe evs nv)) = dl_exception (nv_download nv)"
  using assms
proof (induction evs rule: rev_induct)
  case Nil
  then show ?case by simp
next
  case (snoc ev evs)
  then show ?case
    by (cases ev) (simp_all add: observe_simps handle_response_def settled_downloads_append)
qed

lemma fold_observe_one_settled:
  assumes "settled_downloads evs = [d]"
    and "\<not> truthy (pd_failure d)" "pd_read_bytes d = Inr b"
    and "dl_exception (nv_download nv) = None"
  shows "dl_body (nv_download (fold observe evs nv)) = b
       \<and> dl_url (nv_download (fold observe evs nv)) = pd_url d
       \<and> dl_suggested_filename (nv_download (fold observe evs nv)) = pd_suggested_filename d
       \<and> dl_exception (nv_download (fold observe evs nv)) = None"
  using assms(1)
proof (induction evs rule: rev_induct)
  case Nil
  then show ?case by simp
next
  case (snoc ev evs)
  show ?case
  proof (cases "settles ev")
    case True
    then obtain d' where ev: "ev = Download_settled d'" by (cases ev) auto
    from snoc.prems have d': "d' = d" and n: "settled_downloads evs = []"
      by (simp_all add: ev settled_downloads_append)
    have f: "(case pd_failure d of None \<Rightarrow> [] | Some f \<Rightarrow> f) = []"
      using assms(2) by (simp add: truthy_def split: option.splits)
    show ?thesis
      using fold_observe_no_settled [OF n, of nv] assms(3,4) f
      by (simp add: ev d' observe_simps handle_download_finish_def Let_def)
  next
    case False
    then have "settled_downloads evs = [d]"
      using snoc.prems by (cases ev) (simp_all add: settled_downloads_append)
    from snoc.IH [OF this] False show ?thesis
      by (cases ev) (simp_all add: observe_simps handle_response_def)
  qed
qed

lemma navigate_observe:
  "fst (navigate env pid w) =
     fold observe (goto_events env)
       \<lparr>nv_download = Download, download_started = False, download_ready = False\<rparr>"
  "(''response'', HandleResponse) \<in> set (pg_listeners (pages (snd (navigate env pid w)) pid))"
  "(''download'', HandleDownload) \<in> set (pg_listeners (pages (snd (navigate env pid w)) pid))"
proof -
  let ?w1 = "page_on pid ''response'' HandleResponse (page_on pid ''download'' HandleDownload w)"
  let ?nv0 = "\<lparr>nv_download = Download, download_started = False, download_ready = False\<rparr>"
  have "fst (fold (on_event pid) (goto_events env) (?nv0, ?w1)) = fold observe (goto_events env) ?nv0"
    using fold_on_event_observe [where s = "(?nv0, ?w1)" and pid = pid and evs = "goto_events env"] by simp
  then show "fst (navigate env pid w) = fold observe (goto_events env) ?nv0"
    by (simp add: navigate_def Let_def split_beta)
  show "(''response'', HandleResponse) \<in> set (pg_listeners (pages (snd (navigate env pid w)) pid))"
    "(''download'', HandleDownload) \<in> set (pg_listeners (pages (snd (navigate env pid w)) pid))"
    by (simp_all add: navigate_frame(2))
qed

lemma wait_for_seen:
  assumes step: "\<And>ev nv. flag (observe ev nv) = (flag nv \<or> P ev)"
    and "\<not> flag nv0"
    and "(''response'', HandleResponse) \<in> set (pg_listeners (pages w pid))"
    and "(''download'', HandleDownload) \<in> set (pg_listeners (pages w pid))"
  shows "wait_for flag pid rest (fold observe seen nv0, w) =
     (if list_ex P seen then (Some rest, fold observe seen nv0, w)
      else case until_first P rest of
             None \<Rightarrow> (None, fold (on_event pid) rest (fold observe seen nv0, w))
           | Some p \<Rightarrow> (Some (drop (length p) rest),
                         fold observe (seen @ p) nv0,
                         snd (fold (on_event pid) p (fold observe seen nv0, w))))"
proof -
  have fl: "flag (fold observe evs nv) = (flag nv \<or> list_ex P evs)" for evs nv
    by (induction evs arbitrary: nv) (auto simp: step)
  show ?thesis
  proof (cases "list_ex P seen")
    case True
    then show ?thesis
      by (simp add: wait_for_set fl)
  next
    case False
    have "wait_for flag pid rest (fold observe seen nv0, w) =
     (case until_first P rest of
        None \<Rightarrow> (None, fold (on_event pid) rest (fold observe seen nv0, w))
      | Some p \<Rightarrow> (Some (drop (length p) rest), fold (on_event pid) p (fold observe seen nv0, w)))"
      by (rule wait_for_until_first [of flag P]) (simp_all add: step assms fl False)
    moreover have "fold (on_event pid) p (fold observe seen nv0, w) =
        (fold observe (seen @ p) nv0, snd (fold (on_event pid) p (fold observe seen nv0, w)))" for p
      using fold_on_event_observe [where s = "(fold observe seen nv0, w)" and pid = pid and evs = p] assms(3,4)
      by (simp add: prod_eq_iff)
    ultimately show ?thesis
      using False by (simp split: option.splits)
  qed
qed

lemma download_path:
  assumes g: "goto_result env = Inl err"
    and p: "is_PlaywrightError err"
    and s: "download_is_starting (config w) err"
  shows "fst (get_response_and_download env request pid w) =
     (case seen_until_started (goto_events env) (wait_events env) of
        None \<Rightarrow> Blocks
      | Some seen \<Rightarrow>
          if last_observed_status seen = Some 204 then Raises err
          else (case seen_until_ready (goto_events env) (wait_events env) of
                  None \<Rightarrow> Blocks
                | Some all \<Rightarrow>
                    Returns (None,
                      if download_bool (nv_download (fold observe all
                           \<lparr>nv_download = Download, download_started = False, download_ready = False\<rparr>))
                      then Some (nv_download (fold observe all
                           \<lparr>nv_download = Download, download_started = False, download_ready = False\<rparr>))
                      else None)))"
proof -
  let ?nv0 = "\<lparr>nv_download = Download, download_started = False, download_ready = False\<rparr>"
  let ?during = "goto_events env"
  let ?after = "wait_events env"
  obtain nv1 w3 where nav: "navigate env pid w = (nv1, w3)" by force
  have nv1: "nv1 = fold observe ?during ?nv0"
    and sub3: "(''response'', HandleResponse) \<in> set (pg_listeners (pages w3 pid))"
      "(''download'', HandleDownload) \<in> set (pg_listeners (pages w3 pid))"
    using navigate_observe [of env pid w] unfolding nav by simp_all
  have status: "dl_response_status (nv_download (fold observe evs ?nv0)) = 204
                  \<longleftrightarrow> last_observed_status evs = Some 204" for evs
    using fold_observe_response [of evs ?nv0]
    by (simp add: Download_simps split: option.splits)
  have started: "wait_for download_started pid ?after (nv1, w3) =
     (if list_ex starts ?during then (Some ?after, fold observe ?during ?nv0, w3)
      else case until_first starts ?after of
             None \<Rightarrow> (None, fold (on_event pid) ?after (fold observe ?during ?nv0, w3))
           | Some p \<Rightarrow> (Some (drop (length p) ?after),
                         fold observe (?during @ p) ?nv0,
                         snd (fold (on_event pid) p (fold observe ?during ?nv0, w3))))"
    unfolding nv1
    by (rule wait_for_seen [of download_started starts]) (simp_all add: observe_started sub3)
  have ready: "wait_for download_ready pid rest (fold observe seen ?nv0, w4) =
     (if list_ex settles seen then (Some rest, fold observe seen ?nv0, w4)
      else case until_first settles rest of
             None \<Rightarrow> (None, fold (on_event pid) rest (fold observe seen ?nv0, w4))
           | Some p \<Rightarrow> (Some (drop (length p) rest),
                         fold observe (seen @ p) ?nv0,
                         snd (fold (on_event pid) p (fold observe seen ?nv0, w4))))"
    if "pages w4 = pages w3" for rest seen w4
    by (rule wait_for_seen [of download_ready settles]) (simp_all add: observe_ready sub3 that)
  show ?thesis
  proof (cases "list_ex starts ?during")
    case True
    then show ?thesis
      using ready [of w3 ?after ?during]
      by (simp add: arbiter_cases [OF nav] g p s started status seen_until_started_def
            seen_until_ready_def split_beta del: fold_append split: option.splits)
  next
    case False
    show ?thesis
    proof (cases "until_first starts ?after")
      case None
      then show ?thesis
        using False
        by (simp add: arbiter_cases [OF nav] g p s started seen_until_started_def split_beta)
    next
      case (Some p1)
      let ?w4 = "snd (fold (on_event pid) p1 (fold observe ?during ?nv0, w3))"
      have "pages ?w4 = pages w3" by simp
      from ready [OF this, of "drop (length p1) ?after" "?during @ p1"]
      show ?thesis
        using False Some
        by (simp add: arbiter_cases [OF nav] g p s started status seen_until_started_def
              seen_until_ready_def split_beta del: fold_append split: option.splits)
    qed
  qed
qed

lemma settled_download_record:
  assumes "settled_downloads evs = [d]"
    and "\<not> truthy (pd_failure d)" "pd_read_bytes d = Inr b"
  shows "nv_download (fold observe evs
           \<lparr>nv_download = Download, download_started = False, download_ready = False\<rparr>)
       = \<lparr>dl_body = b, dl_url = pd_url d, dl_suggested_filename = pd_suggested_filename d,
          dl_exception = None,
          dl_response_status = (case last_observed_status evs of None \<Rightarrow> 200 | Some st \<Rightarrow> st),
          dl_headers = last_observed_headers evs\<rparr>"
proof -
  let ?nv0 = "\<lparr>nv_download = Download, download_started = False, download_ready = False\<rparr>"
  have e: "dl_exception (nv_download ?nv0) = None"
    by (simp add: Download_simps)
  have h: "dl_headers (nv_download (fold observe evs ?nv0)) = last_observed_headers evs"
    using fold_observe_response [of evs ?nv0]
    by (simp add: Download_simps last_observed_headers_def split: if_splits)
  have st: "dl_response_status (nv_download (fold observe evs ?nv0))
              = (case last_observed_status evs of None \<Rightarrow> 200 | Some st \<Rightarrow> st)"
    using fold_observe_response [of evs ?nv0] by (simp add: Download_simps split: option.splits)
  show ?thesis
    using fold_observe_one_settled [OF assms e] h st
    by (cases "nv_download (fold observe evs ?nv0)") simp
qed

lemma download_in_progress_events:
  assumes g: "goto_result env = Inl err"
  shows "(is_PlaywrightError err \<and> download_is_starting (config w) err
          \<and> seen_until_started (goto_events env) (wait_events env) = Some seen
          \<and> last_observed_status seen = Some 204
         \<longrightarrow> fst (get_response_and_download env request pid w) = Raises err)
       \<and> (is_PlaywrightError err \<and> download_is_starting (config w) err
          \<and> seen_until_started (goto_events env) (wait_events env) = Some seen
          \<and> last_observed_status seen \<noteq> Some 204
          \<and> seen_until_ready (goto_events env) (wait_events env) = Some all
          \<and> settled_downloads all = [d] \<and> \<not> truthy (pd_failure d) \<and> pd_read_bytes d = Inr b
         \<longrightarrow> fst (get_response_and_download env request pid w)
               = Returns (None,
                   if b \<noteq> []
                   then Some \<lparr>dl_body = b, dl_url = pd_url d,
                          dl_suggested_filename = pd_suggested_filename d,
                          dl_exception = None,
                          dl_response_status =
                            (case last_observed_status all of None \<Rightarrow> 200 | Some st \<Rightarrow> st),
                          dl_headers = last_observed_headers all\<rparr>
                   else None))
       \<and> (is_PlaywrightError err \<and> download_is_starting (config w) err
          \<and> seen_until_started (goto_events env) (wait_events env) = None
         \<longrightarrow> fst (get_response_and_download env request pid w) = Blocks)
       \<and> (\<not> (is_PlaywrightError err \<and> download_is_starting (config w) err)
         \<longrightarrow> fst (get_response_and_download env request pid w) = Raises err)"
proof -
  have 1: "fst (get_response_and_download env request pid w) = Raises err"
    if "is_PlaywrightError err" "download_is_starting (config w) err"
      "seen_until_started (goto_events env) (wait_events env) = Some seen"
      "last_observed_status seen = Some 204"
    using that by (simp add: download_path [OF g that(1,2)])
  have 2: "fst (get_response_and_download env request pid w)
               = Returns (None,
                   if b \<noteq> []
                   then Some \<lparr>dl_body = b, dl_url = pd_url d,
                          dl_suggested_filename = pd_suggested_filename d,
                          dl_exception = None,
                          dl_response_status =
                            (case last_observed_status all of None \<Rightarrow> 200 | Some st \<Rightarrow> st),
                          dl_headers = last_observed_headers all\<rparr>
                   else None)"
    if "is_PlaywrightError err" "download_is_starting (config w) err"
      "seen_until_started (goto_events env) (wait_events env) = Some seen"
      "last_observed_status seen \<noteq> Some 204"
      "seen_until_ready (goto_events env) (wait_events env) = Some all"
      "settled_downloads all = [d]" "\<not> truthy (pd_failure d)" "pd_read_bytes d = Inr b"
    using that(3,4,5)
    by (simp add: download_path [OF g that(1,2)] settled_download_record [OF that(6,7,8)]
          download_bool_def)
  have 3: "fst (get_response_and_download env request pid w) = Blocks"
    if "is_PlaywrightError err" "download_is_starting (config w) err"
      "seen_until_started (goto_events env) (wait_events env) = None"
    using that by (simp add: download_path [OF g that(1,2)])
  have 4: "fst (get_response_and_download env request pid w) = Raises err"
    if "\<not> (is_PlaywrightError err \<and> download_is_starting (config w) err)"
  proof -
    obtain nv1 w3 where nav: "navigate env pid w = (nv1, w3)" by force
    show ?thesis
      using that by (auto simp: arbiter_cases [OF nav] g)
  qed
  from 1 2 3 4 show ?thesis by blast
qed

text \<open>
  Claim C3, amended. Let the navigation raise the download-in-progress error, and take
  the events the page emits during \<^verbatim>\<open>page.goto\<close> and after it. If the last response
  observed when the download-started notification has come has status 204, the fetch
  raises the navigation error itself. If it has another status (or no response was
  observed), and the download then completes, handled once, without a failure and with
  its file read, the result has no navigation response; it holds the download, with the
  file's content, the url and the file name of the download and the status and headers
  of the last response observed, if the content is not empty, and no download if the
  content is empty. While no notification comes the fetch waits. An error that is not
  of the download-in-progress kind is raised as it is.
\<close>

theorem download_in_progress_outcomes:
  assumes "goto_result env = Inl err"
  shows "(is_PlaywrightError err \<and> download_is_starting (config w) err
          \<and> seen_until_started (goto_events env) (wait_events env) = Some seen
          \<and> last_observed_status seen = Some 204
         \<longrightarrow> fst (get_response_and_download env request pid w) = Raises err)
       \<and> (is_PlaywrightError err \<and> download_is_starting (config w) err
          \<and> seen_until_started (goto_events env) (wait_events env) = Some seen
          \<and> last_observed_status seen \<noteq> Some 204
          \<and> seen_until_ready (goto_events env) (wait_events env) = Some all
          \<and> settled_downloads all = [d] \<and> \<not> truthy (pd_failure d) \<and> pd_read_bytes d = Inr b
         \<longrightarrow> fst (get_response_and_download env request pid w)
               = Returns (None,
                   if b \<noteq> []
                   then Some \<lparr>dl_body = b, dl_url = pd_url d,
                          dl_suggested_filename = pd_suggested_filename d,
                          dl_exception = None,
                          dl_response_status =
                            (case last_observed_status all of None \<Rightarrow> 200 | Some st \<Rightarrow> st),
                          dl_headers = last_observed_headers all\<rparr>
                   else None))
       \<and> (is_PlaywrightError err \<and> download_is_starting (config w) err
          \<and> seen_until_started (goto_events env) (wait_events env) = None
         \<longrightarrow> fst (get_response_and_download env request pid w) = Blocks)
       \<and> (\<not> (is_PlaywrightError err \<and> download_is_starting (config w) err)
         \<longrightarrow> fst (get_response_and_download env request pid w) = Raises err)"
  using download_in_progress_events [OF assms] .

lemma download_events_example:
  "seen_until_started (goto_events (download_answers content)) (wait_events (download_answers content))
     = Some [Ev_response ok_response]"
  "last_observed_status [Ev_response ok_response] = Some 200"
  "seen_until_ready (goto_events (download_answers content)) (wait_events (download_answers content))
     = Some [Ev_response ok_response, Ev_download (file_download content),
             Download_settled (file_download content)]"
  "settled_downloads [Ev_response ok_response, Ev_download (file_download content),
             Download_settled (file_download content)] = [file_download content]"
  "last_observed_status [Ev_response ok_response, Ev_download (file_download content),
             Download_settled (file_download content)] = Some 200"
  "last_observed_headers [Ev_response ok_response, Ev_download (file_download content),
             Download_settled (file_download content)]
     = [(''content-type'', ''application/octet-stream'')]"
  "\<not> truthy (pd_failure (file_download content))"
  "pd_read_bytes (file_download content) = Inr content"
  "goto_result (download_answers content) = Inl (PlaywrightError ''Page.goto: Download is starting'')"
  by (simp_all add: download_answers_def quiet_answers_def seen_until_started_def
        seen_until_ready_def last_observed_status_def last_observed_headers_def
        ok_response_def file_download_def truthy_def)

lemma no_content_example:
  "seen_until_started (goto_events no_content_answers) (wait_events no_content_answers)
     = Some [Ev_response no_content_response]"
  "last_observed_status [Ev_response no_content_response] = Some 204"
  "goto_result no_content_answers = Inl (PlaywrightError ''Page.goto: Download is starting'')"
  by (simp_all add: no_content_answers_def quiet_answers_def seen_until_started_def
        last_observed_status_def no_content_response_def)

theorem download_in_progress_outcomes_witness:
  "goto_result no_content_answers = Inl (PlaywrightError ''Page.goto: Download is starting'')
   \<and> goto_result (download_answers ''data'')
       = Inl (PlaywrightError ''Page.goto: Download is starting'')
   \<and> is_PlaywrightError (PlaywrightError ''Page.goto: Download is starting'')
   \<and> download_is_starting (config page_world) (PlaywrightError ''Page.goto: Download is starting'')
   \<and> seen_until_started (goto_events no_content_answers) (wait_events no_content_answers)
       = Some [Ev_response no_content_response]
   \<and> last_observed_status [Ev_response no_content_response] = Some 204
   \<and> fst (get_response_and_download no_content_answers example_request 1 page_world)
       = Raises (PlaywrightError ''Page.goto: Download is starting'')
   \<and> seen_until_started (goto_events (download_answers ''data''))
         (wait_events (download_answers ''data''))
       = Some [Ev_response ok_response]
   \<and> last_observed_status [Ev_response ok_response] = Some 200
   \<and> fst (get_response_and_download (download_answers ''data'') example_request 1 page_world)
       = Returns (None,
           Some \<lparr>dl_body = ''data'', dl_url = ''https://example.org/file.bin'',
                  dl_suggested_filename = ''file.bin'', dl_exception = None,
                  dl_response_status = 200,
                  dl_headers = [(''content-type'', ''application/octet-stream'')]\<rparr>)"
proof -
  let ?err = "PlaywrightError ''Page.goto: Download is starting''"
  let ?fd = "file_download ''data''"
  have a: "fst (get_response_and_download no_content_answers example_request 1 page_world)
       = Raises ?err"
    using download_in_progress_outcomes [OF no_content_example(3),
        where w = page_world and seen = "[Ev_response no_content_response]"
          and request = example_request and pid = 1]
      download_is_starting_example no_content_example(1,2)
    by simp
  have b: "fst (get_response_and_download (download_answers ''data'') example_request 1 page_world)
       = Returns (None,
           Some \<lparr>dl_body = ''data'', dl_url = pd_url ?fd,
                  dl_suggested_filename = pd_suggested_filename ?fd, dl_exception = None,
                  dl_response_status = 200,
                  dl_headers = [(''content-type'', ''application/octet-stream'')]\<rparr>)"
    using download_in_progress_outcomes [OF download_events_example(9) [of "''data''"],
        where w = page_world and seen = "[Ev_response ok_response]"
          and all = "[Ev_response ok_response, Ev_download ?fd, Download_settled ?fd]"
          and d = ?fd and b = "''data''" and request = example_request and pid = 1]
      download_is_starting_example download_events_example(1,3-8) [of "''data''"]
      download_events_example(2)
    by simp
  show ?thesis
    using a b download_is_starting_example no_content_example
      download_events_example(1,9) [of "''data''"] download_events_example(2)
    by (simp add: file_download_def)
qed

text \<open>
  The claim as stated fails for an empty file: the navigation raises the
  download-in-progress error, the last observed status is 200, the download completes
  without a failure, and the result holds no download.
\<close>

theorem empty_download_gives_no_download_result:
  "goto_result (download_answers []) = Inl (PlaywrightError ''Page.goto: Download is starting'')
   \<and> download_is_starting (config page_world) (PlaywrightError ''Page.goto: Download is starting'')
   \<and> last_observed_status (goto_events (download_answers [])) = Some 200
   \<and> pd_failure (file_download []) = None
   \<and> pd_read_bytes (file_download []) = Inr []
   \<and> fst (get_response_and_download (download_answers []) example_request 1 page_world)
       = Returns (None, None)"
proof -
  let ?fd = "file_download []"
  have "fst (get_response_and_download (download_answers []) example_request 1 page_world)
       = Returns (None, None)"
    using download_in_progress_events [OF download_events_example(9) [of "[]"],
        where w = page_world and seen = "[Ev_response ok_response]"
          and all = "[Ev_response ok_response, Ev_download ?fd, Download_settled ?fd]"
          and d = ?fd and b = "[]" and request = example_request and pid = 1]
      download_is_starting_example download_events_example(1,3-8) [of "[]"]
      download_events_example(2)
    by simp
  then show ?thesis
    using download_is_starting_example download_events_example(9) [of "[]"]
      download_events_example(2)
    by (simp add: file_download_def download_answers_def)
qed

subsection \<open>Interception\<close>

lemma request_handler_aborted:
  assumes "should_abort hk r"
  shows "request_handler hk lr r cr (ic, w) =
           (Returns (), ic\<lparr>engine_calls := engine_calls ic @ [Route_abort r]\<rparr>,
            inc_value ''camoufox/request_count/aborted'' w)"
  using assms by (simp add: request_handler_def)

lemma is_initial_request_calls [simp]:
  "is_initial_request lr r (ic\<lparr>engine_calls := calls\<rparr>) = is_initial_request lr r ic"
  by (simp add: is_initial_request_def)

lemma request_handler_other:
  assumes "\<not> should_abort hk r" "\<not> is_initial_request lr r ic"
  shows "fst (snd (request_handler hk lr r cr (ic, w))) =
           ic\<lparr>engine_calls := engine_calls ic
                  @ [All_headers r, Route_continue r \<lparr>ov_method = None, ov_post_data = None\<rparr>]\<rparr>"
  using assms
  by (simp add: request_handler_def Let_def split: option.splits)

lemma request_handler_initial:
  assumes "\<not> should_abort hk r" "is_initial_request lr r ic"
  shows "request_handler hk lr r cr (ic, w) =
     (case post_data hk lr of
        Inl ex \<Rightarrow>
          (Raises ex,
           ic\<lparr>engine_calls := engine_calls ic @ [All_headers r], initial_request_done := True\<rparr>, w)
      | Inr payload \<Rightarrow>
          ((case cr of
              None \<Rightarrow> Returns ()
            | Some ex \<Rightarrow> if is_PlaywrightError ex \<and> is_safe_close_error hk ex
                         then Returns () else Raises ex),
           ic\<lparr>engine_calls := engine_calls ic
                  @ [All_headers r,
                     Route_continue r
                       \<lparr>ov_method = (if str_upper hk (lr_method lr) \<noteq> str_upper hk (rq_method r)
                                     then Some (lr_method lr) else None),
                        ov_post_data = payload\<rparr>],
              initial_request_done := True,
              ic_headers := rq_all_headers r\<rparr>, w))"
  using assms
  by (simp add: request_handler_def Let_def split: option.splits sum.splits)

lemma request_handler_done:
  "initial_request_done (fst (snd (request_handler hk lr r cr (ic, w)))) \<longleftrightarrow>
     initial_request_done ic \<or> eligible hk lr r"
proof (cases "should_abort hk r")
  case True
  then show ?thesis by (simp add: request_handler_aborted eligible_def)
next
  case False
  show ?thesis
  proof (cases "is_initial_request lr r ic")
    case True
    then show ?thesis
      using False
      by (auto simp: request_handler_initial eligible_def is_initial_request_def split: sum.splits)
  next
    case False
    then show ?thesis
      using \<open>\<not> should_abort hk r\<close>
      by (auto simp: request_handler_other eligible_def is_initial_request_def)
  qed
qed

lemma intercept_snoc:
  "intercept hk lr (arrivals @ [(r, cr)]) s =
     snd (request_handler hk lr r cr (intercept hk lr arrivals s))"
  by (simp add: intercept_def)

lemma intercept_done:
  "initial_request_done (fst (intercept hk lr arrivals s)) \<longleftrightarrow>
     initial_request_done (fst s) \<or> (\<exists>a \<in> set arrivals. eligible hk lr (fst a))"
proof (induction arrivals rule: rev_induct)
  case Nil
  then show ?case by (simp add: intercept_def)
next
  case (snoc a arrivals)
  obtain r cr where a: "a = (r, cr)" by (cases a)
  obtain ic w where s: "intercept hk lr arrivals s = (ic, w)" by force
  show ?case
    using snoc request_handler_done [of hk lr r cr ic w]
    by (auto simp: a intercept_snoc s)
qed

lemma first_eligible_unique:
  "first_eligible hk lr arrivals i \<Longrightarrow> first_eligible hk lr arrivals j \<Longrightarrow> i = j"
  unfolding first_eligible_def by (metis nat_neq_iff)

lemma done_before:
  assumes "\<not> initial_request_done (fst s0)" "i \<le> length arrivals"
  shows "initial_request_done (fst (intercept hk lr (take i arrivals) s0)) \<longleftrightarrow>
           (\<exists>j<i. eligible hk lr (fst (arrivals ! j)))"
proof -
  have "(\<exists>a \<in> set (take i arrivals). eligible hk lr (fst a)) \<longleftrightarrow>
        (\<exists>j<i. eligible hk lr (fst (arrivals ! j)))"
  proof
    assume "\<exists>a \<in> set (take i arrivals). eligible hk lr (fst a)"
    then obtain a where a: "a \<in> set (take i arrivals)" "eligible hk lr (fst a)" by blast
    then obtain j where "j < length (take i arrivals)" "take i arrivals ! j = a"
      by (auto simp: in_set_conv_nth)
    then have "j < i" "arrivals ! j = a" using assms(2) by simp_all
    with a(2) show "\<exists>j<i. eligible hk lr (fst (arrivals ! j))" by blast
  next
    assume "\<exists>j<i. eligible hk lr (fst (arrivals ! j))"
    then obtain j where j: "j < i" "eligible hk lr (fst (arrivals ! j))" by blast
    then have "take i arrivals ! j = arrivals ! j" "j < length (take i arrivals)"
      using assms(2) by simp_all
    then have "arrivals ! j \<in> set (take i arrivals)" by (metis nth_mem)
    with j(2) show "\<exists>a \<in> set (take i arrivals). eligible hk lr (fst a)" by blast
  qed
  then show ?thesis
    using assms(1) by (simp add: intercept_done)
qed

lemma matched_once:
  assumes "\<not> initial_request_done (fst s0)" "i < length arrivals" "arrivals ! i = (r, cr)"
    and "intercept hk lr (take i arrivals) s0 = (ic, w)"
    and "request_handler hk lr r cr (ic, w) = (out, ic', w')"
  shows "((initial_request_done ic' \<and> \<not> initial_request_done ic)
            \<longleftrightarrow> first_eligible hk lr arrivals i)
       \<and> (first_eligible hk lr arrivals i \<longrightarrow>
            (case post_data hk lr of
               Inr payload \<Rightarrow>
                 engine_calls ic' = engine_calls ic
                   @ [All_headers r,
                      Route_continue r
                        \<lparr>ov_method = (if str_upper hk (lr_method lr) \<noteq> str_upper hk (rq_method r)
                                      then Some (lr_method lr) else None),
                         ov_post_data = payload\<rparr>]
                 \<and> ic_headers ic' = rq_all_headers r
             | Inl ex \<Rightarrow>
                 out = Raises ex
                 \<and> engine_calls ic' = engine_calls ic @ [All_headers r]
                 \<and> ic_headers ic' = ic_headers ic))
       \<and> (\<not> first_eligible hk lr arrivals i \<and> \<not> should_abort hk r \<longrightarrow>
            engine_calls ic' = engine_calls ic
              @ [All_headers r, Route_continue r \<lparr>ov_method = None, ov_post_data = None\<rparr>]
            \<and> ic_headers ic' = ic_headers ic)"
proof -
  have before: "initial_request_done ic \<longleftrightarrow> (\<exists>j<i. eligible hk lr (fst (arrivals ! j)))"
    using done_before [OF assms(1), of i arrivals hk lr] assms(2,4) by simp
  have after: "initial_request_done ic' \<longleftrightarrow> initial_request_done ic \<or> eligible hk lr r"
    using request_handler_done [of hk lr r cr ic w] assms(5) by simp
  have fe: "first_eligible hk lr arrivals i \<longleftrightarrow> eligible hk lr r \<and> \<not> initial_request_done ic"
    using before assms(3) by (auto simp: first_eligible_def)
  have init: "is_initial_request lr r ic \<and> \<not> should_abort hk r \<longleftrightarrow> first_eligible hk lr arrivals i"
    by (auto simp: fe eligible_def is_initial_request_def)
  have 1: "(initial_request_done ic' \<and> \<not> initial_request_done ic) \<longleftrightarrow> first_eligible hk lr arrivals i"
    using after fe by auto
  have 2: "first_eligible hk lr arrivals i \<longrightarrow>
            (case post_data hk lr of
               Inr payload \<Rightarrow>
                 engine_calls ic' = engine_calls ic
                   @ [All_headers r,
                      Route_continue r
                        \<lparr>ov_method = (if str_upper hk (lr_method lr) \<noteq> str_upper hk (rq_method r)
                                      then Some (lr_method lr) else None),
                         ov_post_data = payload\<rparr>]
                 \<and> ic_headers ic' = rq_all_headers r
             | Inl ex \<Rightarrow>
                 out = Raises ex
                 \<and> engine_calls ic' = engine_calls ic @ [All_headers r]
                 \<and> ic_headers ic' = ic_headers ic)"
  proof
    assume "first_eligible hk lr arrivals i"
    then have i: "is_initial_request lr r ic" "\<not> should_abort hk r"
      using init by auto
    show "case post_data hk lr of
               Inr payload \<Rightarrow>
                 engine_calls ic' = engine_calls ic
                   @ [All_headers r,
                      Route_continue r
                        \<lparr>ov_method = (if str_upper hk (lr_method lr) \<noteq> str_upper hk (rq_method r)
                                      then Some (lr_method lr) else None),
                         ov_post_data = payload\<rparr>]
                 \<and> ic_headers ic' = rq_all_headers r
             | Inl ex \<Rightarrow>
                 out = Raises ex
                 \<and> engine_calls ic' = engine_calls ic @ [All_headers r]
                 \<and> ic_headers ic' = ic_headers ic"
      using assms(5) request_handler_initial [OF i(2) i(1), of cr w]
      by (cases "post_data hk lr") auto
  qed
  have 3: "\<not> first_eligible hk lr arrivals i \<and> \<not> should_abort hk r \<longrightarrow>
            engine_calls ic' = engine_calls ic
              @ [All_headers r, Route_continue r \<lparr>ov_method = None, ov_post_data = None\<rparr>]
            \<and> ic_headers ic' = ic_headers ic"
  proof
    assume a: "\<not> first_eligible hk lr arrivals i \<and> \<not> should_abort hk r"
    then have "\<not> is_initial_request lr r ic" using init by auto
    then show "engine_calls ic' = engine_calls ic
              @ [All_headers r, Route_continue r \<lparr>ov_method = None, ov_post_data = None\<rparr>]
            \<and> ic_headers ic' = ic_headers ic"
      using request_handler_other [of hk r lr ic cr w] a assms(5) by simp
  qed
  from 1 2 3 show ?thesis by blast
qed

text \<open>
  Claim C8. When an abort predicate is configured and holds of an intercepted
  sub-request, the handler aborts the route and returns: the abort is the only engine
  call it makes (the resolved headers are not read and the route is not continued),
  and the matching state and the request's header view stay as they were, so the
  aborted sub-request does not become the matched one.
\<close>

theorem aborted_request_is_not_processed:
  assumes "abort_request hk = Some p" and "p r"
  shows "request_handler hk lr r cr (ic, w) =
           (Returns (), ic\<lparr>engine_calls := engine_calls ic @ [Route_abort r]\<rparr>,
            inc_value ''camoufox/request_count/aborted'' w)
       \<and> engine_calls (fst (snd (request_handler hk lr r cr (ic, w))))
           = engine_calls ic @ [Route_abort r]
       \<and> initial_request_done (fst (snd (request_handler hk lr r cr (ic, w))))
           = initial_request_done ic
       \<and> ic_headers (fst (snd (request_handler hk lr r cr (ic, w)))) = ic_headers ic"
proof -
  have "should_abort hk r"
    using assms by (simp add: should_abort_def)
  then show ?thesis
    by (simp add: request_handler_aborted)
qed

theorem aborted_request_is_not_processed_witness:
  "abort_request example_hooks = Some (\<lambda>r. rq_resource_type r = ''image'')
   \<and> rq_resource_type image_request = ''image''
   \<and> fst (request_handler example_hooks (fst (make_request_handler example_request))
            image_request None (snd (make_request_handler example_request), fresh_handler))
       = Returns ()
   \<and> fst (snd (request_handler example_hooks (fst (make_request_handler example_request))
            image_request None (snd (make_request_handler example_request), fresh_handler)))
       = \<lparr>initial_request_done = False, ic_headers = [],
          engine_calls = [Route_abort image_request]\<rparr>"
proof -
  have a: "abort_request example_hooks = Some (\<lambda>r. rq_resource_type r = ''image'')"
    by (simp add: example_hooks_def)
  have b: "rq_resource_type image_request = ''image''"
    by (simp add: image_request_def)
  show ?thesis
    using aborted_request_is_not_processed [OF a b,
        of "fst (make_request_handler example_request)" None
           "snd (make_request_handler example_request)" fresh_handler]
      a b
    by (simp add: make_request_handler_def example_request_def)
qed

lemma first_eligible_iff:
  assumes "\<not> initial_request_done (fst s0)" "i < length arrivals" "arrivals ! i = (r, cr)"
    and "intercept hk lr (take i arrivals) s0 = (ic, w)"
  shows "first_eligible hk lr arrivals i \<longleftrightarrow>
           \<not> should_abort hk r
           \<and> rstrip_slash (rq_url r) = rstrip_slash (lr_url lr)
           \<and> rq_is_navigation_request r
           \<and> \<not> initial_request_done ic"
proof -
  have "initial_request_done ic \<longleftrightarrow> (\<exists>j<i. eligible hk lr (fst (arrivals ! j)))"
    using done_before [OF assms(1), of i arrivals hk lr] assms(2,4) by simp
  then show ?thesis
    using assms(3) by (auto simp: first_eligible_def eligible_def)
qed

lemma post_data_cases:
  "(lr_body lr = None \<or> lr_body lr = Some [] \<longrightarrow> post_data hk lr = Inr None)
   \<and> (lr_body lr = Some b \<and> b \<noteq> [] \<and> decode hk (lr_encoding lr) b = Inr decoded
        \<longrightarrow> post_data hk lr = Inr (Some decoded))
   \<and> (lr_body lr = Some b \<and> b \<noteq> [] \<and> decode hk (lr_encoding lr) b = Inl ex
        \<longrightarrow> post_data hk lr = Inl ex)"
  by (auto simp: post_data_def)

text \<open>
  Claim C1. Take the runs of the route handler during one fetch in their order,
  starting unmatched; the sub-requests the abort predicate stops are dealt with before
  the matching (claim C8) and take no part in it. The run for the \<open>i\<close>-th sub-request
  turns the state to matched exactly when that sub-request is the first one whose url
  equals the request's url up to trailing slashes and that is a navigation request
  (what \<^verbatim>\<open>is_navigation_request()\<close> answers), that is, when it is such a sub-request and
  comes while the state is still unmatched; so at most one sub-request is matched. For
  the matched sub-request the continuation carries the request's method iff the two
  methods differ once \<^verbatim>\<open>str.upper\<close> is applied to both, which for methods in upper case,
  as the framework and the engine give them, is iff they differ; it carries the body
  decoded with the request's encoding if the request has a non-empty body, and no
  payload otherwise; and the request's header view becomes the resolved headers. (If
  the decoding raises, the run raises that exception and continues nothing.) Every
  other sub-request that reaches the matching is continued with no overrides and leaves
  the header view as it is.
\<close>

theorem initial_request_matched_once:
  assumes "\<not> initial_request_done (fst s0)" "i < length arrivals" "arrivals ! i = (r, cr)"
    and "intercept hk lr (take i arrivals) s0 = (ic, w)"
    and "request_handler hk lr r cr (ic, w) = (out, ic', w')"
  shows "((initial_request_done ic' \<and> \<not> initial_request_done ic)
            \<longleftrightarrow> first_eligible hk lr arrivals i)
       \<and> (first_eligible hk lr arrivals i \<longleftrightarrow>
            \<not> should_abort hk r
            \<and> rstrip_slash (rq_url r) = rstrip_slash (lr_url lr)
            \<and> rq_is_navigation_request r
            \<and> \<not> initial_request_done ic)
       \<and> (first_eligible hk lr arrivals i \<and> first_eligible hk lr arrivals j \<longrightarrow> i = j)
       \<and> (first_eligible hk lr arrivals i \<longrightarrow>
            (case post_data hk lr of
               Inr payload \<Rightarrow>
                 engine_calls ic' = engine_calls ic
                   @ [All_headers r,
                      Route_continue r
                        \<lparr>ov_method = (if str_upper hk (lr_method lr) \<noteq> str_upper hk (rq_method r)
                                      then Some (lr_method lr) else None),
                         ov_post_data = payload\<rparr>]
                 \<and> ic_headers ic' = rq_all_headers r
             | Inl ex \<Rightarrow>
                 out = Raises ex
                 \<and> engine_calls ic' = engine_calls ic @ [All_headers r]
                 \<and> ic_headers ic' = ic_headers ic))
       \<and> (first_eligible hk lr arrivals i \<and> post_data hk lr = Inr payload
          \<and> str_upper hk (lr_method lr) = lr_method lr
          \<and> str_upper hk (rq_method r) = rq_method r \<longrightarrow>
            engine_calls ic' = engine_calls ic
              @ [All_headers r,
                 Route_continue r
                   \<lparr>ov_method = (if lr_method lr \<noteq> rq_method r then Some (lr_method lr) else None),
                    ov_post_data = payload\<rparr>])
       \<and> (lr_body lr = None \<or> lr_body lr = Some [] \<longrightarrow> post_data hk lr = Inr None)
       \<and> (lr_body lr = Some b \<and> b \<noteq> [] \<and> decode hk (lr_encoding lr) b = Inr decoded
            \<longrightarrow> post_data hk lr = Inr (Some decoded))
       \<and> (\<not> first_eligible hk lr arrivals i \<and> \<not> should_abort hk r \<longrightarrow>
            engine_calls ic' = engine_calls ic
              @ [All_headers r, Route_continue r \<lparr>ov_method = None, ov_post_data = None\<rparr>]
            \<and> ic_headers ic' = ic_headers ic)"
proof -
  note m = matched_once [OF assms]
  have c: "engine_calls ic' = engine_calls ic
              @ [All_headers r,
                 Route_continue r
                   \<lparr>ov_method = (if lr_method lr \<noteq> rq_method r then Some (lr_method lr) else None),
                    ov_post_data = payload\<rparr>]"
    if "first_eligible hk lr arrivals i" "post_data hk lr = Inr payload"
      "str_upper hk (lr_method lr) = lr_method lr" "str_upper hk (rq_method r) = rq_method r"
    using m that by simp
  note f = first_eligible_iff [OF assms(1-4)]
  from m c f post_data_cases [of lr hk b decoded] first_eligible_unique [of hk lr arrivals i j]
  show ?thesis by blast
qed

lemma post_example:
  "\<not> initial_request_done (fst (snd (make_request_handler post_request), fresh_handler))"
  "1 < length example_arrivals"
  "example_arrivals ! 1 = (document_request ''GET'', None)"
  "2 < length example_arrivals"
  "example_arrivals ! 2 = (document_request ''GET'', None)"
  "first_eligible example_hooks (fst (make_request_handler post_request)) example_arrivals 1"
  "\<not> should_abort example_hooks (document_request ''GET'')"
  "post_data example_hooks (fst (make_request_handler post_request)) = Inr (Some ''a=1'')"
  "str_upper example_hooks (lr_method (fst (make_request_handler post_request))) = ''POST''"
  "lr_method (fst (make_request_handler post_request)) = ''POST''"
  "str_upper example_hooks (rq_method (document_request ''GET'')) = ''GET''"
  "rq_method (document_request ''GET'') = ''GET''"
  by (simp_all add: make_request_handler_def post_request_def example_request_def
        example_arrivals_def first_eligible_def eligible_def should_abort_def example_hooks_def
        image_request_def document_request_def rstrip_slash_def post_data_def
        ascii_upper_def upper_char_def less_Suc_eq)

lemma post_example_second:
  "\<not> first_eligible example_hooks (fst (make_request_handler post_request)) example_arrivals 2"
  using first_eligible_unique [OF post_example(6), of 2] by auto

lemma post_example_runs:
  "intercept example_hooks (fst (make_request_handler post_request)) (take 1 example_arrivals)
     (snd (make_request_handler post_request), fresh_handler)
   = (\<lparr>initial_request_done = False, ic_headers = [],
        engine_calls = [Route_abort image_request]\<rparr>,
      inc_value ''camoufox/request_count/aborted'' fresh_handler)"
  "intercept example_hooks (fst (make_request_handler post_request)) (take 2 example_arrivals)
     (snd (make_request_handler post_request), fresh_handler)
   = (\<lparr>initial_request_done = True, ic_headers = [(''user-agent'', ''Mozilla/5.0'')],
        engine_calls =
          [Route_abort image_request, All_headers (document_request ''GET''),
           Route_continue (document_request ''GET'')
             \<lparr>ov_method = Some ''POST'', ov_post_data = Some ''a=1''\<rparr>]\<rparr>,
      inc_value ''camoufox/request_count/aborted'' fresh_handler)"
proof -
  let ?lr = "fst (make_request_handler post_request)"
  let ?start = "snd (make_request_handler post_request)"
  let ?aborted = "\<lparr>initial_request_done = False, ic_headers = [],
          engine_calls = [Route_abort image_request]\<rparr>"
  let ?w = "inc_value ''camoufox/request_count/aborted'' fresh_handler"
  have a: "should_abort example_hooks image_request"
    by (simp add: should_abort_def example_hooks_def image_request_def)
  show 1: "intercept example_hooks ?lr (take 1 example_arrivals) (?start, fresh_handler)
             = (?aborted, ?w)"
    using a
    by (simp add: intercept_def example_arrivals_def request_handler_aborted
          make_request_handler_def post_request_def example_request_def)
  have i: "is_initial_request ?lr (document_request ''GET'') ?aborted"
    by (simp add: is_initial_request_def document_request_def make_request_handler_def
          post_request_def example_request_def rstrip_slash_def)
  have "take 2 example_arrivals = take 1 example_arrivals @ [(document_request ''GET'', None)]"
    by (simp add: example_arrivals_def)
  then have "intercept example_hooks ?lr (take 2 example_arrivals) (?start, fresh_handler)
      = snd (request_handler example_hooks ?lr (document_request ''GET'') None (?aborted, ?w))"
    by (simp only: intercept_snoc 1)
  also have "\<dots> = (\<lparr>initial_request_done = True, ic_headers = [(''user-agent'', ''Mozilla/5.0'')],
        engine_calls =
          [Route_abort image_request, All_headers (document_request ''GET''),
           Route_continue (document_request ''GET'')
             \<lparr>ov_method = Some ''POST'', ov_post_data = Some ''a=1''\<rparr>]\<rparr>, ?w)"
    using post_example(8,9,11)
    by (simp add: request_handler_initial [OF post_example(7) i])
       (simp add: document_request_def make_request_handler_def post_request_def)
  finally show "intercept example_hooks ?lr (take 2 example_arrivals) (?start, fresh_handler)
   = (\<lparr>initial_request_done = True, ic_headers = [(''user-agent'', ''Mozilla/5.0'')],
        engine_calls =
          [Route_abort image_request, All_headers (document_request ''GET''),
           Route_continue (document_request ''GET'')
             \<lparr>ov_method = Some ''POST'', ov_post_data = Some ''a=1''\<rparr>]\<rparr>, ?w)" .
qed

theorem initial_request_matched_once_witness:
  "\<not> initial_request_done (snd (make_request_handler post_request))
   \<and> first_eligible example_hooks (fst (make_request_handler post_request)) example_arrivals 1
   \<and> \<not> first_eligible example_hooks (fst (make_request_handler post_request)) example_arrivals 2
   \<and> str_upper example_hooks ''POST'' = ''POST'' \<and> str_upper example_hooks ''GET'' = ''GET''
   \<and> engine_calls (fst (snd (request_handler example_hooks (fst (make_request_handler post_request))
        (document_request ''GET'') None
        (intercept example_hooks (fst (make_request_handler post_request))
           (take 1 example_arrivals)
           (snd (make_request_handler post_request), fresh_handler)))))
     = [Route_abort image_request, All_headers (document_request ''GET''),
        Route_continue (document_request ''GET'')
          \<lparr>ov_method = Some ''POST'', ov_post_data = Some ''a=1''\<rparr>]
   \<and> ic_headers (fst (snd (request_handler example_hooks (fst (make_request_handler post_request))
        (document_request ''GET'') None
        (intercept example_hooks (fst (make_request_handler post_request))
           (take 1 example_arrivals)
           (snd (make_request_handler post_request), fresh_handler)))))
     = [(''user-agent'', ''Mozilla/5.0'')]
   \<and> engine_calls (fst (snd (request_handler example_hooks (fst (make_request_handler post_request))
        (document_request ''GET'') None
        (intercept example_hooks (fst (make_request_handler post_request))
           (take 2 example_arrivals)
           (snd (make_request_handler post_request), fresh_handler)))))
     = [Route_abort image_request, All_headers (document_request ''GET''),
        Route_continue (document_request ''GET'')
          \<lparr>ov_method = Some ''POST'', ov_post_data = Some ''a=1''\<rparr>,
        All_headers (document_request ''GET''),
        Route_continue (document_request ''GET'') \<lparr>ov_method = None, ov_post_data = None\<rparr>]"
proof -
  let ?lr = "fst (make_request_handler post_request)"
  let ?start = "snd (make_request_handler post_request)"
  let ?doc = "document_request ''GET''"
  obtain out1 ic1 w1 where run1:
    "request_handler example_hooks ?lr ?doc None
       (intercept example_hooks ?lr (take 1 example_arrivals) (?start, fresh_handler))
     = (out1, ic1, w1)"
    by (metis prod_cases3)
  obtain out2 ic2 w2 where run2:
    "request_handler example_hooks ?lr ?doc None
       (intercept example_hooks ?lr (take 2 example_arrivals) (?start, fresh_handler))
     = (out2, ic2, w2)"
    by (metis prod_cases3)
  have first: "engine_calls ic1 = [Route_abort image_request, All_headers ?doc,
        Route_continue ?doc \<lparr>ov_method = Some ''POST'', ov_post_data = Some ''a=1''\<rparr>]
      \<and> ic_headers ic1 = [(''user-agent'', ''Mozilla/5.0'')]"
    using initial_request_matched_once
      [OF post_example(1,2,3) post_example_runs(1) run1 [unfolded post_example_runs(1)],
       where j = 1 and payload = "Some ''a=1''"]
      post_example(6,8,9,10,11,12)
    by (simp add: document_request_def)
  have second: "engine_calls ic2 = [Route_abort image_request, All_headers ?doc,
        Route_continue ?doc \<lparr>ov_method = Some ''POST'', ov_post_data = Some ''a=1''\<rparr>,
        All_headers ?doc,
        Route_continue ?doc \<lparr>ov_method = None, ov_post_data = None\<rparr>]"
    using initial_request_matched_once
      [OF post_example(1,4,5) post_example_runs(2) run2 [unfolded post_example_runs(2)],
       where j = 2]
      post_example_second post_example(7)
    by simp
  show ?thesis
    using first second post_example(1,6,9,10,11,12) post_example_second
    unfolding run1 run2 by simp
qed

subsection \<open>The pipeline on a page, and its failure\<close>

lemma page_close_closed [simp]:
  "pg_closed (pages (page_close pid w) pid)"
  by (simp add: page_close_def)

lemma page_close_url [simp]:
  "pg_url (pages (page_close pid w) p) = pg_url (pages w p)"
  by (simp add: page_close_def)


lemma close_page_Raises:
  "\<not> pg_closed (pages w pid) \<Longrightarrow> close_raises env = Some e \<Longrightarrow>
     close_page env pid w = (Raises e, w)"
  by (simp add: close_page_def)

lemma close_page_on_exception_Raises:
  "close_page_on_exception env pid (Raises ex, request, w) =
     (if \<not> camoufox_include_page (sr_meta request) \<and> \<not> pg_closed (pages w pid)
      then (case close_raises env of
              None \<Rightarrow> (Raises ex, request,
                         inc_value ''camoufox/page_count/closed'' (page_close pid w))
            | Some e \<Rightarrow> (Raises e, request, w))
      else (Raises ex, request, w))"
  by (simp add: close_page_on_exception_def close_page_def andThen_simps in_world_def
        split: option.splits)



lemma attach_each_frame [simp]:
  "context_wrappers (attach_each sp pid hs w) = context_wrappers w"
  "config (attach_each sp pid hs w) = config w"
  "pg_closed (pages (attach_each sp pid hs w) p) = pg_closed (pages w p)"
  by (induction sp pid hs w rule: attach_each.induct) simp_all


lemma page_route_frame [simp]:
  "context_wrappers (page_route pid h w) = context_wrappers w"
  "config (page_route pid h w) = config w"
  "stats (page_route pid h w) = stats w"
  "pg_closed (pages (page_route pid h w) p) = pg_closed (pages w p)"
  "pg_listeners (pages (page_route pid h w) p) = pg_listeners (pages w p)"
  "pg_url (pages (page_route pid h w) p) = pg_url (pages w p)"
  by (simp_all add: page_route_def)

lemma install_handlers_cases:
  "install_handlers env pid (request0, w0) =
     (case camoufox_page_event_handlers (sr_meta request0) of
        NotAMapping \<Rightarrow>
          (Raises (AttributeError ''object has no attribute items''),
           request0\<lparr>sr_meta := (sr_meta request0)\<lparr>camoufox_context :=
             Some (case camoufox_context (sr_meta request0) of
                     None \<Rightarrow> DEFAULT_CONTEXT_NAME | Some n \<Rightarrow> n)\<rparr>\<rparr>, w0)
      | EventHandlers hs \<Rightarrow>
          (case unroute_raises env of
             Some e \<Rightarrow>
               (Raises e,
                request0\<lparr>sr_meta := (sr_meta request0)\<lparr>camoufox_context :=
                  Some (case camoufox_context (sr_meta request0) of
                          None \<Rightarrow> DEFAULT_CONTEXT_NAME | Some n \<Rightarrow> n)\<rparr>\<rparr>,
                attach_each (spider_attributes env) pid hs w0)
           | None \<Rightarrow>
               (case route_raises env of
                  Some e \<Rightarrow>
                    (Raises e,
                     request0\<lparr>sr_meta := (sr_meta request0)\<lparr>camoufox_context :=
                       Some (case camoufox_context (sr_meta request0) of
                               None \<Rightarrow> DEFAULT_CONTEXT_NAME | Some n \<Rightarrow> n)\<rparr>\<rparr>,
                     page_route pid None (attach_each (spider_attributes env) pid hs w0))
                | None \<Rightarrow>
                    (Returns (),
                     request0\<lparr>sr_meta := (sr_meta request0)\<lparr>camoufox_context :=
                       Some (case camoufox_context (sr_meta request0) of
                               None \<Rightarrow> DEFAULT_CONTEXT_NAME | Some n \<Rightarrow> n)\<rparr>\<rparr>,
                     page_route pid
                       (Some (request0\<lparr>sr_meta := (sr_meta request0)\<lparr>camoufox_context :=
                          Some (case camoufox_context (sr_meta request0) of
                                  None \<Rightarrow> DEFAULT_CONTEXT_NAME | Some n \<Rightarrow> n)\<rparr>\<rparr>))
                       (page_route pid None (attach_each (spider_attributes env) pid hs w0))))))"
  by (simp add: install_handlers_def attach_page_event_handlers_def andThen_simps in_world_def
        Let_def split: event_handlers.splits option.splits)



lemma keep_page_handle_meta [simp]:
  "camoufox_include_page (sr_meta (keep_page_handle pid request)) = camoufox_include_page (sr_meta request)"
  "camoufox_page_methods (sr_meta (keep_page_handle pid request)) = camoufox_page_methods (sr_meta request)"
  by (simp_all add: keep_page_handle_def)


lemma navigate_page:
  "pg_url (pages (snd (navigate env pid w)) pid) = goto_url env"
  "pg_closed (pages (snd (navigate env pid w)) p) = pg_closed (pages w p)"
proof -
  let ?s = "fold (on_event pid) (goto_events env)
              (\<lparr>nv_download = Download, download_started = False, download_ready = False\<rparr>,
               page_on pid ''response'' HandleResponse (page_on pid ''download'' HandleDownload w))"
  have p: "pages (snd ?s)
         = pages (page_on pid ''response'' HandleResponse (page_on pid ''download'' HandleDownload w))"
    by simp
  show "pg_url (pages (snd (navigate env pid w)) pid) = goto_url env"
    by (simp add: navigate_def Let_def split_beta)
  show "pg_closed (pages (snd (navigate env pid w)) p) = pg_closed (pages w p)"
    by (simp add: navigate_def Let_def split_beta p)
qed

lemma remove_listeners_page [simp]:
  "pg_url (pages (remove_listeners pid w) p) = pg_url (pages w p)"
  "pg_closed (pages (remove_listeners pid w) p) = pg_closed (pages w p)"
  "context_wrappers (remove_listeners pid w) = context_wrappers w"
  "config (remove_listeners pid w) = config w"
  by (simp_all add: remove_listeners_def)



lemma with_page_raises:
  assumes "get_response_and_download env (keep_page_handle pid request) pid w = (Raises ex, w1)"
  shows "download_request_with_page env request pid w = (Raises ex, keep_page_handle pid request, w1)"
  using assms
  by (simp add: download_request_with_page_def andThen_simps in_world_def Let_def
        cong: andThen_weak_cong)

lemma arbiter_raises:
  assumes "goto_result env = Inl err" "\<not> download_is_starting (config w) err"
  shows "get_response_and_download env request pid w =
           (Raises err, remove_listeners pid (snd (navigate env pid w)))"
proof -
  obtain nv1 w3 where nav: "navigate env pid w = (nv1, w3)" by force
  show ?thesis
    using assms by (simp add: arbiter_cases [OF nav] nav)
qed





lemma pipeline_run:
  assumes "resolve_page env request0 w0 = (Returns pid, request1, w1)"
    and "install_handlers env pid (request1, w1) = (Returns (), request2, w2)"
  shows "download_request_with_retry env (request0, w0) =
           close_page_on_exception env pid (download_request_with_page env request2 pid w2)"
  using assms by (simp add: download_request_with_retry_def andThen_simps)


lemma failing_navigation:
  "\<not> download_is_starting cfg (PlaywrightError ''Page.goto: NS_ERROR_CONNECTION_REFUSED'')"
  "\<not> download_is_starting cfg (PlaywrightError ''Page.goto: Page crashed'')"
proof -
  have "\<not> sublist ''Download is starting'' ''Page.goto: NS_ERROR_CONNECTION_REFUSED''"
    by code_simp
  then show "\<not> download_is_starting cfg (PlaywrightError ''Page.goto: NS_ERROR_CONNECTION_REFUSED'')"
    by (simp add: download_is_starting_def)
  have "\<not> sublist ''Download is starting'' ''Page.goto: Page crashed''"
    by code_simp
  then show "\<not> download_is_starting cfg (PlaywrightError ''Page.goto: Page crashed'')"
    by (simp add: download_is_starting_def)
qed




lemma resolve_page_fresh:
  assumes "launch_raises env = None" "new_context_raises env = None" "new_page_raises env = None"
    and "camoufox_page (sr_meta request) = None"
    and "camoufox_context (sr_meta request) = None"
    and "camoufox_context_kwargs (sr_meta request) = None"
  shows "\<exists>pid. fst (create_page env request fresh_handler) = Returns pid
    \<and> resolve_page env request fresh_handler =
      (Returns pid,
       request\<lparr>sr_meta := (sr_meta request)\<lparr>camoufox_context := Some ''default''\<rparr>\<rparr>,
       snd (snd (create_page env request fresh_handler)))
    \<and> page_slots ''default'' (snd (snd (create_page env request fresh_handler))) = Some 0
    \<and> \<not> pg_closed (pages (snd (snd (create_page env request fresh_handler))) pid)
    \<and> pg_listeners (pages (snd (snd (create_page env request fresh_handler))) pid) =
               [(''close'', ClosePageCallback ''default''), (''crash'', ClosePageCallback ''default''),
                (''request'', RequestLogger ''default''), (''response'', ResponseLogger ''default''),
                (''request'', IncrementRequestStats), (''response'', IncrementResponseStats)]"
proof -
  from create_page_fresh [OF assms(1,2,3,5,6)] obtain pid where
    c: "create_page env request fresh_handler =
      (Returns pid,
       request\<lparr>sr_meta := (sr_meta request)\<lparr>camoufox_context := Some ''default''\<rparr>\<rparr>,
       snd (snd (create_page env request fresh_handler)))"
    and s: "page_slots ''default'' (snd (snd (create_page env request fresh_handler))) = Some 0"
    and o: "\<not> pg_closed (pages (snd (snd (create_page env request fresh_handler))) pid)"
    by blast
  have f: "fst (create_page env request fresh_handler) = Returns pid"
    by (subst c) simp
  have r: "resolve_page env request fresh_handler = create_page env request fresh_handler"
    by (simp add: resolve_page_def assms(4))
  from create_page_Returns [OF c] have
    l: "pg_listeners (pages (snd (snd (create_page env request fresh_handler))) pid) =
               [(''close'', ClosePageCallback ''default''), (''crash'', ClosePageCallback ''default''),
                (''request'', RequestLogger ''default''), (''response'', ResponseLogger ''default''),
                (''request'', IncrementRequestStats), (''response'', IncrementResponseStats)]"
    by auto
  show ?thesis
    using f c s o l unfolding r by blast
qed


lemma navigate_crash_slots:
  assumes "pg_listeners (pages w pid) =
               [(''close'', ClosePageCallback name), (''crash'', ClosePageCallback name),
                (''request'', RequestLogger name), (''response'', ResponseLogger name),
                (''request'', IncrementRequestStats), (''response'', IncrementResponseStats)]
               @ extra"
    and "\<not> list_ex slot_callback extra"
  shows "page_slots name (snd (navigate crash_answers pid w))
           = map_option (\<lambda>v. v + 1) (page_slots name w)"
proof -
  let ?w1 = "page_on pid ''response'' HandleResponse (page_on pid ''download'' HandleDownload w)"
  have e: "emit pid Ev_crash ?w1 = close_page_callback name ?w1"
    by (rule emit_close_or_crash
          [where extra = "extra @ [(''download'', HandleDownload), (''response'', HandleResponse)]"])
       (simp_all add: assms)
  have "context_wrappers (snd (navigate crash_answers pid w)) = context_wrappers (emit pid Ev_crash ?w1)"
    by (simp add: navigate_def crash_answers_def quiet_answers_def Let_def on_event_def)
  then have "page_slots name (snd (navigate crash_answers pid w))
               = page_slots name (close_page_callback name ?w1)"
    by (simp add: page_slots_def e)
  also have "\<dots> = map_option (\<lambda>v. v + 1) (page_slots name ?w1)"
    by (rule page_slots_close_page_callback)
  also have "page_slots name ?w1 = page_slots name w"
    by (simp add: page_slots_def)
  finally show ?thesis .
qed

text \<open>
  Claim C4, on a whole fetch. The handler allows one page per context. The fetch creates
  its page, which takes the only slot; the page crashes while \<^verbatim>\<open>page.goto\<close> is awaited,
  and the crash notification releases the slot; \<^verbatim>\<open>page.goto\<close> raises, and the \<^verbatim>\<open>except\<close>
  clause closes the page, whose close notification releases a slot again. After the
  failed fetch the semaphore stands at 2.
\<close>

theorem crash_during_navigation_releases_two_slots:
  "max_pages_per_context (config fresh_handler) = 1
   \<and> goto_events crash_answers = [Ev_crash]
   \<and> fst (download_request_with_retry crash_answers (example_request, fresh_handler))
       = Raises (PlaywrightError ''Page.goto: Page crashed'')
   \<and> page_slots ''default''
       (snd (snd (download_request_with_retry crash_answers (example_request, fresh_handler))))
       = Some 2"
proof -
  let ?env = crash_answers
  let ?err = "PlaywrightError ''Page.goto: Page crashed''"
  let ?w1 = "snd (snd (create_page ?env example_request fresh_handler))"
  let ?request1 = "example_request\<lparr>sr_meta := (sr_meta example_request)\<lparr>camoufox_context := Some ''default''\<rparr>\<rparr>"
  have "\<exists>pid. fst (create_page ?env example_request fresh_handler) = Returns pid
      \<and> resolve_page ?env example_request fresh_handler = (Returns pid, ?request1, ?w1)
      \<and> page_slots ''default'' ?w1 = Some 0
      \<and> \<not> pg_closed (pages ?w1 pid)
      \<and> pg_listeners (pages ?w1 pid) =
               [(''close'', ClosePageCallback ''default''), (''crash'', ClosePageCallback ''default''),
                (''request'', RequestLogger ''default''), (''response'', ResponseLogger ''default''),
                (''request'', IncrementRequestStats), (''response'', IncrementResponseStats)]"
    by (rule resolve_page_fresh)
       (simp_all add: crash_answers_def quiet_answers_def example_request_def)
  then obtain pid where
    r: "resolve_page ?env example_request fresh_handler = (Returns pid, ?request1, ?w1)"
    and s1: "page_slots ''default'' ?w1 = Some 0"
    and o1: "\<not> pg_closed (pages ?w1 pid)"
    and l1: "pg_listeners (pages ?w1 pid) =
               [(''close'', ClosePageCallback ''default''), (''crash'', ClosePageCallback ''default''),
                (''request'', RequestLogger ''default''), (''response'', ResponseLogger ''default''),
                (''request'', IncrementRequestStats), (''response'', IncrementResponseStats)]"
    by blast
  let ?w2 = "page_route pid (Some ?request1) (page_route pid None ?w1)"
  let ?w3 = "remove_listeners pid (snd (navigate ?env pid ?w2))"
  have i: "install_handlers ?env pid (?request1, ?w1) = (Returns (), ?request1, ?w2)"
    by (simp add: install_handlers_cases example_request_def crash_answers_def quiet_answers_def)
  have g: "goto_result ?env = Inl ?err"
    by (simp add: crash_answers_def)
  have cl: "close_raises ?env = None"
    by (simp add: crash_answers_def)
  have k: "\<not> camoufox_include_page (sr_meta (keep_page_handle pid ?request1))"
    by (simp add: example_request_def)
  have d: "download_request_with_page ?env ?request1 pid ?w2 =
      (Raises ?err, keep_page_handle pid ?request1, ?w3)"
    by (rule with_page_raises) (rule arbiter_raises [OF g failing_navigation(2)])
  have l2: "pg_listeners (pages ?w2 pid) =
               [(''close'', ClosePageCallback ''default''), (''crash'', ClosePageCallback ''default''),
                (''request'', RequestLogger ''default''), (''response'', ResponseLogger ''default''),
                (''request'', IncrementRequestStats), (''response'', IncrementResponseStats)] @ []"
    by (simp add: l1)
  have s3: "page_slots ''default'' ?w3 = Some 1"
    using navigate_crash_slots [OF l2] s1 by (simp add: page_slots_def)
  have o3: "\<not> pg_closed (pages ?w3 pid)"
    using o1 by (simp add: navigate_page(2))
  have l3: "pg_listeners (pages ?w3 pid) =
               [(''close'', ClosePageCallback ''default''), (''crash'', ClosePageCallback ''default''),
                (''request'', RequestLogger ''default''), (''response'', ResponseLogger ''default''),
                (''request'', IncrementRequestStats), (''response'', IncrementResponseStats)] @ []"
    using remove_listeners_restores [OF refl navigate_frame(2) [of ?env pid ?w2]]
    by (simp add: l1)
  have s4: "page_slots ''default'' (page_close pid ?w3) = Some 2"
    using page_close_releases [OF l3 _ o3] s3 by simp
  have run: "download_request_with_retry ?env (example_request, fresh_handler) =
      (Raises ?err, keep_page_handle pid ?request1,
       inc_value ''camoufox/page_count/closed'' (page_close pid ?w3))"
    using k o3 cl
    by (simp add: pipeline_run [OF r i] d close_page_on_exception_Raises)
  have m: "max_pages_per_context (config fresh_handler) = 1"
    by (simp add: fresh_handler_def from_settings_def example_settings_def)
  show ?thesis
    using m s4 unfolding run
    by (simp add: page_slots_def crash_answers_def)
qed

end
